theory Spec2Isabelle
  imports Main "HOL-Library.Char_ord" "HOL-Library.List_Lexorder" "HOL-Library.AList"
begin

section \<open>Python values\<close>

text \<open>
  A \<open>string\<close> stands for a Python \<open>str\<close> whose code points are all below 256: the
  character \<open>c\<close> is the code point \<open>of_char c\<close>. Code points from 256 on are not
  represented. JSON numbers with a fraction or an exponent (Python floats) are not
  represented either; every other value that \<open>resp.json()\<close> or a request body can
  hold is a \<open>json\<close>. A \<open>JDict\<close> lists the items of a Python dict in insertion order,
  so its keys are distinct.
\<close>

datatype json =
    JNull
  | JBool bool
  | JInt int
  | JStr string
  | JList "json list"
  | JDict "(string \<times> json) list"

datatype error =
    HTTPException nat string
  | RequestError
  | KeyError string
  | TypeError
  | AttributeError
  | ValueError
  | OverflowError
  | ProgrammingError
  | IntegrityError

text \<open>
  Library functions the program calls and that are taken as they are:
  \<open>hmac.new(key, msg, sha256).hexdigest()\<close> on the encoded strings, \<open>str()\<close> of a
  list or a dict, and \<open>int()\<close> of a \<open>str\<close> (\<open>None\<close> where it raises ValueError).
\<close>

record pylib =
  hmac_sha256_hexdigest :: "string \<Rightarrow> string \<Rightarrow> string"
  container_str :: "json \<Rightarrow> string"
  int_of_str :: "string \<Rightarrow> int option"

fun digits :: "nat \<Rightarrow> string" where
  "digits n = (if n < 10 then [''0123456789'' ! n]
               else digits (n div 10) @ [''0123456789'' ! (n mod 10)])"

declare digits.simps [simp del]

definition str_of_int :: "int \<Rightarrow> string" where
  "str_of_int i = (if i < 0 then CHR ''-'' # digits (nat (- i)) else digits (nat i))"

text \<open>\<open>str(v)\<close>, which is also what an f-string writes for \<open>{v}\<close>.\<close>

definition py_str :: "pylib \<Rightarrow> json \<Rightarrow> string" where
  "py_str lib v =
     (case v of
        JNull \<Rightarrow> ''None''
      | JBool b \<Rightarrow> (if b then ''True'' else ''False'')
      | JInt i \<Rightarrow> str_of_int i
      | JStr s \<Rightarrow> s
      | JList xs \<Rightarrow> container_str lib v
      | JDict kvs \<Rightarrow> container_str lib v)"

text \<open>\<open>int(v)\<close>.\<close>

definition py_int :: "pylib \<Rightarrow> json \<Rightarrow> error + int" where
  "py_int lib v =
     (case v of
        JNull \<Rightarrow> Inl TypeError
      | JBool b \<Rightarrow> Inr (if b then 1 else 0)
      | JInt i \<Rightarrow> Inr i
      | JStr s \<Rightarrow> (case int_of_str lib s of None \<Rightarrow> Inl ValueError | Some i \<Rightarrow> Inr i)
      | JList xs \<Rightarrow> Inl TypeError
      | JDict kvs \<Rightarrow> Inl TypeError)"

text \<open>Truth value of \<open>v\<close>, as \<open>or\<close> and \<open>if\<close> test it.\<close>

definition py_bool :: "json \<Rightarrow> bool" where
  "py_bool v =
     (case v of
        JNull \<Rightarrow> False
      | JBool b \<Rightarrow> b
      | JInt i \<Rightarrow> i \<noteq> 0
      | JStr s \<Rightarrow> s \<noteq> []
      | JList xs \<Rightarrow> xs \<noteq> []
      | JDict kvs \<Rightarrow> kvs \<noteq> [])"

text \<open>\<open>v[key]\<close> for a string key: KeyError on a dict without it, TypeError elsewhere.\<close>

definition subscript :: "json \<Rightarrow> string \<Rightarrow> error + json" where
  "subscript v key =
     (case v of
        JDict kvs \<Rightarrow> (case map_of kvs key of None \<Rightarrow> Inl (KeyError key) | Some x \<Rightarrow> Inr x)
      | _ \<Rightarrow> Inl TypeError)"

text \<open>\<open>v.get(key, default)\<close>: only a dict has the method.\<close>

definition dict_get :: "json \<Rightarrow> string \<Rightarrow> json \<Rightarrow> error + json" where
  "dict_get v key dflt =
     (case v of
        JDict kvs \<Rightarrow> (case map_of kvs key of None \<Rightarrow> Inr dflt | Some x \<Rightarrow> Inr x)
      | _ \<Rightarrow> Inl AttributeError)"

subsection \<open>Strings\<close>

text \<open>
  \<open>str.isspace\<close> on one character, which is also the class \<open>\s\<close> of a \<open>str\<close> pattern:
  tab to carriage return, the four separators 28 to 31, space, NEL and the no-break space.
\<close>

definition py_isspace :: "char \<Rightarrow> bool" where
  "py_isspace c = ((of_char c :: nat) \<in> {9, 10, 11, 12, 13, 28, 29, 30, 31, 32, 133, 160})"

definition strip :: "string \<Rightarrow> string" where
  "strip s = rev (dropWhile py_isspace (rev (dropWhile py_isspace s)))"

text \<open>
  \<open>str.lower\<close> on one character: the letters A to Z and the capital letters 192 to 222
  (without the multiplication sign 215) move up by 32.
\<close>

definition lower_char :: "char \<Rightarrow> char" where
  "lower_char c =
     (let n = (of_char c :: nat)
      in if (65 \<le> n \<and> n \<le> 90) \<or> (192 \<le> n \<and> n \<le> 222 \<and> n \<noteq> 215)
         then char_of (n + 32) else c)"

definition lower :: "string \<Rightarrow> string" where
  "lower s = map lower_char s"

subsection \<open>The e-mail pattern\<close>

text \<open>
  A pattern is a sequence of items, each one character of a class or one or more of
  them; \<open>re_match\<close> is \<open>re.match\<close> for such a sequence between \<open>^\<close> and \<open>$\<close>, trying
  every length for a repeated item. \<open>$\<close> holds at the end of the string and before a
  line feed that ends it.
\<close>

datatype item = One "char \<Rightarrow> bool" | Many "char \<Rightarrow> bool"

fun re_match :: "item list \<Rightarrow> string \<Rightarrow> bool" where
  "re_match [] s = (s = [] \<or> s = [CHR 0x0A])"
| "re_match (One p # items) [] = False"
| "re_match (One p # items) (c # cs) = (p c \<and> re_match items cs)"
| "re_match (Many p # items) [] = False"
| "re_match (Many p # items) (c # cs) =
     (p c \<and> (re_match (Many p # items) cs \<or> re_match items cs))"

definition not_at_space :: "char \<Rightarrow> bool" where
  "not_at_space c = (c \<noteq> CHR ''@'' \<and> \<not> py_isspace c)"

definition EMAIL_REGEX :: "item list" where
  "EMAIL_REGEX =
     [Many not_at_space, One (\<lambda>c. c = CHR ''@''), Many not_at_space,
      One (\<lambda>c. c = CHR ''.''), Many not_at_space]"

definition is_valid_email :: "string \<Rightarrow> bool" where
  "is_valid_email email = (email \<noteq> [] \<and> re_match EMAIL_REGEX email)"

section \<open>Configuration\<close>

text \<open>The module constants read from the environment when the program starts.\<close>

record config =
  FLOW_API_URL :: string
  FLOW_API_KEY :: string
  FLOW_SECRET_KEY :: string
  PUBLIC_BASE_URL :: string
  DOWNLOAD_BASE_URL :: string
  PRODUCT_FILE :: string
  PRODUCT_DRIVE_URL :: string

section \<open>The orders table\<close>

text \<open>
  One row of \<open>orders\<close>, a field per column (\<open>o_id\<close> is the column \<open>id\<close>, and so on).
  The table is the list of its rows in the order of their insertion, which is the order
  in which a \<open>SELECT\<close> visits them, so \<open>fetchone\<close> is the first row that matches.
\<close>

record order =
  o_id :: string
  o_created_at :: string
  o_email :: string
  o_commerce_order :: string
  o_flow_token :: string
  o_status :: int
  o_download_token :: "string option"
  o_paid_at :: "string option"

type_synonym store = "order list"

text \<open>
  What the column \<open>flow_token TEXT NOT NULL\<close> stores for a bound Python value: a string
  as it is, an integer of 64 bits (a \<open>bool\<close> is one) as its decimal text; \<open>None\<close>
  violates NOT NULL, a larger integer does not fit, a list or a dict cannot be bound.
\<close>

definition bind_text :: "json \<Rightarrow> error + string" where
  "bind_text v =
     (case v of
        JNull \<Rightarrow> Inl IntegrityError
      | JBool b \<Rightarrow> Inr (if b then ''1'' else ''0'')
      | JInt i \<Rightarrow> (if - (2 ^ 63) \<le> i \<and> i < 2 ^ 63 then Inr (str_of_int i) else Inl OverflowError)
      | JStr s \<Rightarrow> Inr s
      | JList xs \<Rightarrow> Inl ProgrammingError
      | JDict kvs \<Rightarrow> Inl ProgrammingError)"

text \<open>\<open>now\<close> is \<open>datetime.utcnow().isoformat()\<close>. The insertion fails on a known \<open>id\<close>.\<close>

definition db_create_order ::
  "store \<Rightarrow> string \<Rightarrow> string \<Rightarrow> string \<Rightarrow> string \<Rightarrow> json \<Rightarrow> error + store" where
  "db_create_order db now order_id email commerce_order flow_token =
     (case bind_text flow_token of
        Inl e \<Rightarrow> Inl e
      | Inr t \<Rightarrow>
          if order_id \<in> set (map o_id db) then Inl IntegrityError
          else Inr (db @ [\<lparr>o_id = order_id, o_created_at = now, o_email = email,
                           o_commerce_order = commerce_order, o_flow_token = t,
                           o_status = 1, o_download_token = None, o_paid_at = None\<rparr>]))"

text \<open>A parameter \<open>None\<close> is bound as NULL, which equals no stored value.\<close>

definition db_get_by_flow_token ::
  "store \<Rightarrow> string option \<Rightarrow> (string \<times> string \<times> int \<times> string option) option" where
  "db_get_by_flow_token db flow_token =
     (case find (\<lambda>r. Some (o_flow_token r) = flow_token) db of
        None \<Rightarrow> None
      | Some r \<Rightarrow> Some (o_id r, o_email r, o_status r, o_download_token r))"

definition db_mark_paid :: "store \<Rightarrow> string \<Rightarrow> string option \<Rightarrow> string \<Rightarrow> store" where
  "db_mark_paid db now flow_token download_token =
     map (\<lambda>r. if Some (o_flow_token r) = flow_token
              then r\<lparr>o_status := 2, o_download_token := Some download_token,
                     o_paid_at := Some now\<rparr>
              else r) db"

definition db_get_by_download_token :: "store \<Rightarrow> string \<Rightarrow> (string \<times> int) option" where
  "db_get_by_download_token db download_token =
     (case find (\<lambda>r. o_download_token r = Some download_token) db of
        None \<Rightarrow> None
      | Some r \<Rightarrow> Some (o_email r, o_status r))"

section \<open>The payment gateway\<close>

text \<open>
  \<open>sorted(params.items())\<close> orders the items by key (the keys of a dict differ, so no
  two values are compared); strings are ordered by code point.
\<close>

definition flow_sign_raw :: "pylib \<Rightarrow> (string \<times> json) list \<Rightarrow> string" where
  "flow_sign_raw lib params =
     (let items = sort_key fst params
      in concat (map (\<lambda>(k, v). k @ py_str lib v) items))"

definition flow_sign :: "pylib \<Rightarrow> (string \<times> json) list \<Rightarrow> string \<Rightarrow> string" where
  "flow_sign lib params secret = hmac_sha256_hexdigest lib secret (flow_sign_raw lib params)"

text \<open>
  A request as handed to \<open>requests\<close>: the URL and the parameters (the form data of a
  POST, the query of a GET). The gateway is a function from the request to what
  \<open>resp.json()\<close> gives: the parsed body, or \<open>Raised\<close> when the call or the parsing
  raises (no connection, timeout, a body that is not JSON).
\<close>

datatype request = Post string "(string \<times> json) list" | Get string "(string \<times> json) list"

datatype reply = Raised | Body json

type_synonym gateway = "request \<Rightarrow> reply"

text \<open>\<open>params[k] = v\<close> is \<open>AList.update\<close>: in place for a known key, at the end otherwise.\<close>

definition flow_post_request :: "pylib \<Rightarrow> config \<Rightarrow> string \<Rightarrow> (string \<times> json) list \<Rightarrow> request" where
  "flow_post_request lib cfg endpoint params =
     (let params = AList.update ''apiKey'' (JStr (FLOW_API_KEY cfg)) params;
          params = AList.update ''s'' (JStr (flow_sign lib params (FLOW_SECRET_KEY cfg))) params
      in Post (FLOW_API_URL cfg @ endpoint) params)"

definition flow_post ::
  "pylib \<Rightarrow> config \<Rightarrow> gateway \<Rightarrow> string \<Rightarrow> (string \<times> json) list \<Rightarrow> error + json" where
  "flow_post lib cfg gw endpoint params =
     (case gw (flow_post_request lib cfg endpoint params) of
        Raised \<Rightarrow> Inl RequestError
      | Body data \<Rightarrow> Inr data)"

definition flow_get_status_request :: "pylib \<Rightarrow> config \<Rightarrow> string option \<Rightarrow> request" where
  "flow_get_status_request lib cfg token =
     (let params = [(''apiKey'', JStr (FLOW_API_KEY cfg)),
                    (''token'', case token of None \<Rightarrow> JNull | Some t \<Rightarrow> JStr t)];
          params = AList.update ''s'' (JStr (flow_sign lib params (FLOW_SECRET_KEY cfg))) params
      in Get (FLOW_API_URL cfg @ ''/payment/getStatus'') params)"

definition flow_get_status :: "pylib \<Rightarrow> config \<Rightarrow> gateway \<Rightarrow> string option \<Rightarrow> error + json" where
  "flow_get_status lib cfg gw token =
     (case gw (flow_get_status_request lib cfg token) of
        Raised \<Rightarrow> Inl RequestError
      | Body data \<Rightarrow> Inr data)"

section \<open>Endpoints\<close>

datatype response =
    JSONResponse json
  | RedirectResponse string
  | FileResponse string string

text \<open>
  A queued call \<open>send_email(email, subject, body)\<close>, given by the recipient and the
  link: subject and body are fixed texts around the link.
\<close>

datatype task = Send_email string string

definition pay_create_params :: "config \<Rightarrow> string \<Rightarrow> string \<Rightarrow> (string \<times> json) list" where
  "pay_create_params cfg commerce_order email =
     [(''commerceOrder'', JStr commerce_order),
      (''subject'', JStr ''Pack IA para PYMES 2026''),
      (''currency'', JStr ''CLP''),
      (''amount'', JInt 350),
      (''email'', JStr email),
      (''urlConfirmation'', JStr (PUBLIC_BASE_URL cfg @ ''/flow/confirmation'')),
      (''urlReturn'', JStr (PUBLIC_BASE_URL cfg @ ''/flow/return''))]"

text \<open>
  \<open>POST /pay/create\<close>. \<open>payload\<close> holds the items of the body, \<open>order_id\<close> and
  \<open>commerce_order\<close> are the two \<open>str(uuid.uuid4())\<close>. The result is the table after
  the call and the response, or the exception that ends the call. A value of
  \<open>payload["email"]\<close> that is true and no string has no \<open>strip\<close>.
\<close>

definition pay_create ::
  "pylib \<Rightarrow> config \<Rightarrow> gateway \<Rightarrow> store \<Rightarrow> string \<Rightarrow> (string \<times> json) list \<Rightarrow> string \<Rightarrow> string
     \<Rightarrow> store \<times> (error + response)" where
  "pay_create lib cfg gw db now payload order_id commerce_order =
     (let given = (case map_of payload ''email'' of None \<Rightarrow> JNull | Some v \<Rightarrow> v)
      in case (if py_bool given then given else JStr []) of
           JStr raw \<Rightarrow>
             (let email = lower (strip raw)
              in if \<not> is_valid_email email
                 then (db, Inl (HTTPException 400 (''Email inv'' @ [CHR 0xE1] @ ''lido'')))
                 else
                   (case flow_post lib cfg gw ''/payment/create''
                           (pay_create_params cfg commerce_order email) of
                      Inl e \<Rightarrow> (db, Inl e)
                    | Inr data \<Rightarrow>
                       (case subscript data ''token'' of
                          Inl e \<Rightarrow> (db, Inl e)
                        | Inr token \<Rightarrow>
                           (case subscript data ''url'' of
                              Inl e \<Rightarrow> (db, Inl e)
                            | Inr url \<Rightarrow>
                               (let checkout_url = py_str lib url @ ''?token='' @ py_str lib token
                                in case db_create_order db now order_id email commerce_order token of
                                     Inl e \<Rightarrow> (db, Inl e)
                                   | Inr db' \<Rightarrow>
                                       (db', Inr (JSONResponse (JDict
                                          [(''ok'', JBool True),
                                           (''checkoutUrl'', JStr checkout_url),
                                           (''token'', token)]))))))))
         | _ \<Rightarrow> (db, Inl AttributeError))"

text \<open>\<open>a or b\<close> for a string or \<open>None\<close>: \<open>b\<close> when \<open>a\<close> is \<open>None\<close> or empty.\<close>

definition str_or :: "string option \<Rightarrow> string \<Rightarrow> string" where
  "str_or a b = (case a of None \<Rightarrow> b | Some t \<Rightarrow> if t \<noteq> [] then t else b)"

text \<open>
  \<open>POST /flow/confirmation\<close>. \<open>token\<close> is \<open>form.get("token")\<close> and \<open>hex\<close> is
  \<open>uuid.uuid4().hex\<close>. The result is the table after the call, the tasks queued and the
  response, or the exception that ends the call.
\<close>

definition flow_confirmation ::
  "pylib \<Rightarrow> config \<Rightarrow> gateway \<Rightarrow> store \<Rightarrow> string \<Rightarrow> string option \<Rightarrow> string
     \<Rightarrow> store \<times> task list \<times> (error + response)" where
  "flow_confirmation lib cfg gw db now token hex =
     (case flow_get_status lib cfg gw token of
        Inl e \<Rightarrow> (db, [], Inl e)
      | Inr status \<Rightarrow>
         (case dict_get status ''status'' (JInt 0) of
            Inl e \<Rightarrow> (db, [], Inl e)
          | Inr v \<Rightarrow>
             (case py_int lib v of
                Inl e \<Rightarrow> (db, [], Inl e)
              | Inr n \<Rightarrow>
                 (let (db', background_tasks) =
                        (if n = 2 then
                           (case db_get_by_flow_token db token of
                              None \<Rightarrow> (db, [])
                            | Some (_, email, _, existing_token) \<Rightarrow>
                               (let download_token = str_or existing_token hex;
                                    link = DOWNLOAD_BASE_URL cfg @ ''/download/'' @ download_token
                                in (db_mark_paid db now token download_token,
                                    [Send_email email link])))
                         else (db, []))
                  in (db', background_tasks,
                      Inr (JSONResponse (JDict [(''ok'', JBool True)])))))))"

text \<open>\<open>GET /download/{download_token}\<close>: it reads the table and changes nothing.\<close>

definition download :: "config \<Rightarrow> store \<Rightarrow> string \<Rightarrow> error + response" where
  "download cfg db download_token =
     (case db_get_by_download_token db download_token of
        None \<Rightarrow> Inl (HTTPException 403 (''Link inv'' @ [CHR 0xE1] @ ''lido''))
      | Some (_, status) \<Rightarrow>
          if status \<noteq> 2 then Inl (HTTPException 403 (''Link inv'' @ [CHR 0xE1] @ ''lido''))
          else if PRODUCT_DRIVE_URL cfg \<noteq> [] then Inr (RedirectResponse (PRODUCT_DRIVE_URL cfg))
          else Inr (FileResponse (PRODUCT_FILE cfg) ''application/zip''))"

section \<open>Runs of the endpoints\<close>

text \<open>\<open>uuid.uuid4().hex\<close> is a string of 32 hexadecimal digits.\<close>

definition is_uuid_hex :: "string \<Rightarrow> bool" where
  "is_uuid_hex h = (length h = 32 \<and> list_all (\<lambda>c. c \<in> set ''0123456789abcdef'') h)"

text \<open>
  The value \<open>int(status.get("status", 0))\<close> that \<open>flow_confirmation\<close> compares with 2:
  the status the gateway reports for \<open>token\<close>, or the exception on the way to it.
\<close>

definition reported_status :: "pylib \<Rightarrow> config \<Rightarrow> gateway \<Rightarrow> string option \<Rightarrow> error + int" where
  "reported_status lib cfg gw token =
     (case flow_get_status lib cfg gw token of
        Inl e \<Rightarrow> Inl e
      | Inr status \<Rightarrow>
         (case dict_get status ''status'' (JInt 0) of
            Inl e \<Rightarrow> Inl e
          | Inr v \<Rightarrow> py_int lib v))"

text \<open>
  One request changes the table from \<open>db\<close> to \<open>db'\<close>. Body, gateway, clock and the
  values of \<open>uuid4\<close> are free at each request.
\<close>

inductive step :: "pylib \<Rightarrow> config \<Rightarrow> store \<Rightarrow> store \<Rightarrow> bool" for lib cfg where
  initiate:
    "step lib cfg db (fst (pay_create lib cfg gw db now payload order_id commerce_order))"
| confirm:
    "is_uuid_hex hex \<Longrightarrow>
     step lib cfg db (fst (flow_confirmation lib cfg gw db now token hex))"
| authorizeDownload:
    "download cfg db download_token = r \<Longrightarrow> step lib cfg db db"

text \<open>The tables that requests make of the empty table.\<close>

inductive reachable :: "pylib \<Rightarrow> config \<Rightarrow> store \<Rightarrow> bool" for lib cfg where
  empty: "reachable lib cfg []"
| after: "reachable lib cfg db \<Longrightarrow> step lib cfg db db' \<Longrightarrow> reachable lib cfg db'"

text \<open>
  What holds of every row of a reachable table: it is Pending without a download
  token, or Paid with a non-empty one that the first row of its gateway token has too.
\<close>

definition row_ok :: "store \<Rightarrow> order \<Rightarrow> bool" where
  "row_ok db r =
     (case o_download_token r of
        None \<Rightarrow> o_status r = 1
      | Some d \<Rightarrow>
          o_status r = 2 \<and> d \<noteq> [] \<and>
          (case find (\<lambda>q. o_flow_token q = o_flow_token r) db of
             None \<Rightarrow> False
           | Some q \<Rightarrow> o_download_token q = Some d))"

definition store_inv :: "store \<Rightarrow> bool" where
  "store_inv db = list_all (row_ok db) db"

subsection \<open>A configuration, a library and gateways to compute with\<close>

definition cfg0 :: config where
  "cfg0 = \<lparr>FLOW_API_URL = ''https://www.flow.cl/api'', FLOW_API_KEY = ''K'',
           FLOW_SECRET_KEY = ''S'', PUBLIC_BASE_URL = ''https://shop'',
           DOWNLOAD_BASE_URL = ''https://shop'',
           PRODUCT_FILE = ''products/pack_ia_pymes_2026.zip'', PRODUCT_DRIVE_URL = []\<rparr>"

text \<open>
  In \<open>lib0\<close> the digest is written out as the text \<open>hmac(key,message)\<close>, so that it
  shows which message was signed.
\<close>

definition lib0 :: pylib where
  "lib0 = \<lparr>hmac_sha256_hexdigest = (\<lambda>k m. ''hmac('' @ k @ '','' @ m @ '')''),
           container_str = (\<lambda>v. []),
           int_of_str = (\<lambda>s. if s = ''2'' then Some 2 else None)\<rparr>"

definition gw_paid :: gateway where
  "gw_paid req =
     (case req of
        Post u ps \<Rightarrow> Body (JDict [(''url'', JStr ''https://gw/pay''), (''token'', JStr ''T1''),
                                   (''flowOrder'', JInt 7)])
      | Get u ps \<Rightarrow> Body (JDict [(''flowOrder'', JInt 7), (''status'', JInt 2)]))"

definition gw_down :: gateway where
  "gw_down req = Raised"

definition order1 :: order where
  "order1 = \<lparr>o_id = ''id1'', o_created_at = ''2026-01-01T00:00:00'', o_email = ''buyer@x.com'',
             o_commerce_order = ''co1'', o_flow_token = ''T1'', o_status = 1,
             o_download_token = None, o_paid_at = None\<rparr>"

definition uuid_a :: string where
  "uuid_a = ''0123456789abcdef0123456789abcdef''"

definition uuid_b :: string where
  "uuid_b = ''fedcba9876543210fedcba9876543210''"

text \<open>\<open>order1\<close> once paid.\<close>

definition order1_paid :: order where
  "order1_paid = order1\<lparr>o_status := 2, o_download_token := Some uuid_a, o_paid_at := Some ''2026-01-02T00:00:00''\<rparr>"

text \<open>Gateways that answer with a status that is no number, and with status 1.\<close>

definition gw_null_status :: gateway where
  "gw_null_status req = Body (JDict [(''status'', JNull)])"

definition gw_pending :: gateway where
  "gw_pending req = Body (JDict [(''flowOrder'', JInt 7), (''status'', JInt 1)])"

text \<open>\<open>order1\<close> after a second confirmation.\<close>

definition order1_paid_again :: order where
  "order1_paid_again = order1_paid\<lparr>o_paid_at := Some ''2026-01-03T00:00:00''\<rparr>"

text \<open>A gateway that answers with an error body, which has neither token nor url.\<close>

definition gw_error_body :: gateway where
  "gw_error_body req = Body (JDict [(''code'', JInt 401), (''message'', JStr ''apiKey not found'')])"

section \<open>Auxiliary facts\<close>

subsection \<open>Lookups and the table invariant\<close>

lemma find_append:
  "find P (xs @ ys) = (case find P xs of None \<Rightarrow> find P ys | Some x \<Rightarrow> Some x)"
  by (induction xs) auto

lemma find_map_same:
  "(\<And>x. P (f x) = P x) \<Longrightarrow> find P (map f xs) = map_option f (find P xs)"
  by (induction xs) auto

lemma find_in_set: "find P xs = Some x \<Longrightarrow> x \<in> set xs \<and> P x"
  by (induction xs) (auto split: if_splits)

lemma find_member: "x \<in> set xs \<Longrightarrow> P x \<Longrightarrow> \<exists>y. find P xs = Some y"
  by (induction xs) auto

lemma is_uuid_hex_nonempty: "is_uuid_hex h \<Longrightarrow> h \<noteq> []"
  by (auto simp: is_uuid_hex_def)

lemma store_inv_append_pending:
  assumes "store_inv db" and "o_download_token r = None" and "o_status r = 1"
  shows "store_inv (db @ [r])"
proof -
  have old: "row_ok (db @ [r]) q" if "q \<in> set db" for q
  proof -
    from assms(1) that have ok: "row_ok db q" by (simp add: store_inv_def list_all_iff)
    from that obtain y where "find (\<lambda>p. o_flow_token p = o_flow_token q) db = Some y"
      using find_member[of q db "\<lambda>p. o_flow_token p = o_flow_token q"] by auto
    with ok show ?thesis by (simp add: row_ok_def find_append split: option.splits)
  qed
  have new: "row_ok (db @ [r]) r" using assms(2,3) by (simp add: row_ok_def)
  from old new show ?thesis by (auto simp: store_inv_def list_all_iff)
qed

lemma pay_create_store:
  "fst (pay_create lib cfg gw db now payload order_id commerce_order) = db \<or>
   (\<exists>r. fst (pay_create lib cfg gw db now payload order_id commerce_order) = db @ [r] \<and>
        o_download_token r = None \<and> o_status r = 1 \<and> o_id r = order_id \<and> order_id \<notin> o_id ` set db)"
  by (auto simp: pay_create_def db_create_order_def Let_def
           split: json.splits sum.splits if_splits)

lemma flow_confirmation_by_status:
  "flow_confirmation lib cfg gw db now token hex =
     (case reported_status lib cfg gw token of
        Inl e \<Rightarrow> (db, [], Inl e)
      | Inr n \<Rightarrow>
          if n = 2 then
            (case db_get_by_flow_token db token of
               None \<Rightarrow> (db, [], Inr (JSONResponse (JDict [(''ok'', JBool True)])))
             | Some (i, email, st, existing_token) \<Rightarrow>
                 (db_mark_paid db now token (str_or existing_token hex),
                  [Send_email email (DOWNLOAD_BASE_URL cfg @ ''/download/'' @ str_or existing_token hex)],
                  Inr (JSONResponse (JDict [(''ok'', JBool True)]))))
          else (db, [], Inr (JSONResponse (JDict [(''ok'', JBool True)]))))"
  by (simp add: flow_confirmation_def reported_status_def Let_def split: sum.splits option.splits prod.splits)

lemma confirm_store:
  "fst (flow_confirmation lib cfg gw db now token hex) = db \<or>
   (\<exists>t q. token = Some t \<and> find (\<lambda>r. o_flow_token r = t) db = Some q \<and>
      fst (flow_confirmation lib cfg gw db now token hex) =
        db_mark_paid db now (Some t) (str_or (o_download_token q) hex))"
proof (cases token)
  case None
  have "find (\<lambda>r. False) db = None" by (simp add: find_None_iff)
  with None show ?thesis
    by (simp add: flow_confirmation_by_status db_get_by_flow_token_def
             split: sum.splits option.splits)
next
  case (Some t)
  then show ?thesis
    by (auto simp: flow_confirmation_by_status db_get_by_flow_token_def
             split: sum.splits option.splits)
qed

lemma mark_paid_row:
  "db_mark_paid db now (Some t) d =
     map (\<lambda>r. if o_flow_token r = t
              then r\<lparr>o_status := 2, o_download_token := Some d, o_paid_at := Some now\<rparr>
              else r) db"
  by (simp add: db_mark_paid_def)

lemma str_or_nonempty: "hex \<noteq> [] \<Longrightarrow> str_or a hex \<noteq> []"
  by (simp add: str_or_def split: option.splits)

lemma store_inv_mark_paid:
  assumes inv: "store_inv db"
    and first: "find (\<lambda>r. o_flow_token r = t) db = Some q"
    and hex: "hex \<noteq> []"
  shows "store_inv (db_mark_paid db now (Some t) (str_or (o_download_token q) hex))"
proof -
  let ?d = "str_or (o_download_token q) hex"
  let ?f = "\<lambda>r. if o_flow_token r = t
              then r\<lparr>o_status := 2, o_download_token := Some ?d, o_paid_at := Some now\<rparr>
              else r"
  have fnd: "find (\<lambda>p. o_flow_token p = k) (map ?f db) = map_option ?f (find (\<lambda>p. o_flow_token p = k) db)" for k
    by (rule find_map_same) simp
  have "row_ok (map ?f db) (?f r)" if r: "r \<in> set db" for r
  proof (cases "o_flow_token r = t")
    case True
    from first have "o_flow_token q = t" using find_in_set[of "\<lambda>r. o_flow_token r = t" db q] by simp
    with True first hex show ?thesis
      by (simp add: row_ok_def fnd str_or_nonempty)
  next
    case False
    from inv r have ok: "row_ok db r" by (simp add: store_inv_def list_all_iff)
    show ?thesis
    proof (cases "o_download_token r")
      case None
      with ok False show ?thesis by (simp add: row_ok_def)
    next
      case (Some d)
      with ok obtain p where p: "find (\<lambda>p. o_flow_token p = o_flow_token r) db = Some p"
        "o_download_token p = Some d" "o_status r = 2" "d \<noteq> []"
        by (auto simp: row_ok_def split: option.splits)
      from p(1) have "o_flow_token p = o_flow_token r"
        using find_in_set[of "\<lambda>p. o_flow_token p = o_flow_token r" db p] by simp
      with False have "?f p = p" by simp
      with p Some False show ?thesis by (simp add: row_ok_def fnd)
    qed
  qed
  then have "\<forall>x\<in>set (map ?f db). row_ok (map ?f db) x"
    unfolding set_map by blast
  then show ?thesis
    unfolding store_inv_def list_all_iff mark_paid_row .
qed

lemma step_store_inv:
  assumes "step lib cfg db db'" and "store_inv db"
  shows "store_inv db'"
  using assms
proof (cases rule: step.cases)
  case (initiate gw now payload order_id commerce_order)
  then show ?thesis
    using pay_create_store[of lib cfg gw db now payload order_id commerce_order] assms(2)
    by (auto intro: store_inv_append_pending)
next
  case (confirm hex gw now token)
  from confirm(2) have ne: "hex \<noteq> []" by (rule is_uuid_hex_nonempty)
  from confirm_store[of lib cfg gw db now token hex] show ?thesis
  proof
    assume "fst (flow_confirmation lib cfg gw db now token hex) = db"
    with confirm(1) assms(2) show ?thesis by simp
  next
    assume "\<exists>t q. token = Some t \<and> find (\<lambda>r. o_flow_token r = t) db = Some q \<and>
      fst (flow_confirmation lib cfg gw db now token hex) =
        db_mark_paid db now (Some t) (str_or (o_download_token q) hex)"
    then obtain t q where "find (\<lambda>r. o_flow_token r = t) db = Some q"
      and "fst (flow_confirmation lib cfg gw db now token hex) =
        db_mark_paid db now (Some t) (str_or (o_download_token q) hex)" by blast
    with confirm(1) show ?thesis using store_inv_mark_paid[OF assms(2) _ ne] by simp
  qed
next
  case (authorizeDownload download_token r)
  then show ?thesis using assms(2) by simp
qed

lemma reachable_store_inv: "reachable lib cfg db \<Longrightarrow> store_inv db"
proof (induction rule: reachable.induct)
  case empty
  show ?case by (simp add: store_inv_def)
next
  case (after db db')
  then show ?case by (blast intro: step_store_inv)
qed

lemma step_rows:
  assumes st: "step lib cfg db db'" and inv: "store_inv db" and i: "i < length db"
  shows "i < length db' \<and>
         o_id (db' ! i) = o_id (db ! i) \<and>
         o_commerce_order (db' ! i) = o_commerce_order (db ! i) \<and>
         o_flow_token (db' ! i) = o_flow_token (db ! i) \<and>
         (o_status (db ! i) = 2 \<longrightarrow> o_status (db' ! i) = 2) \<and>
         (\<forall>d. o_download_token (db ! i) = Some d \<longrightarrow> o_download_token (db' ! i) = Some d)"
  using st
proof (cases rule: step.cases)
  case (initiate gw now payload order_id commerce_order)
  then show ?thesis
    using pay_create_store[of lib cfg gw db now payload order_id commerce_order] i
    by (auto simp: nth_append)
next
  case (confirm hex gw now token)
  from confirm_store[of lib cfg gw db now token hex] show ?thesis
  proof
    assume "fst (flow_confirmation lib cfg gw db now token hex) = db"
    with confirm(1) i show ?thesis by simp
  next
    assume "\<exists>t q. token = Some t \<and> find (\<lambda>r. o_flow_token r = t) db = Some q \<and>
      fst (flow_confirmation lib cfg gw db now token hex) =
        db_mark_paid db now (Some t) (str_or (o_download_token q) hex)"
    then obtain t q where q: "find (\<lambda>r. o_flow_token r = t) db = Some q"
      and eq: "fst (flow_confirmation lib cfg gw db now token hex) =
        db_mark_paid db now (Some t) (str_or (o_download_token q) hex)" by blast
    from inv i have ok: "row_ok db (db ! i)" by (simp add: store_inv_def list_all_length)
    have keep: "str_or (o_download_token q) hex = d"
      if "o_flow_token (db ! i) = t" "o_download_token (db ! i) = Some d" for d
    proof -
      from ok that q have "o_download_token q = Some d" "d \<noteq> []"
        by (auto simp: row_ok_def split: option.splits)
      then show ?thesis by (simp add: str_or_def)
    qed
    from confirm(1) eq i show ?thesis
      by (auto simp: mark_paid_row keep)
  qed
next
  case (authorizeDownload download_token r)
  then show ?thesis using i by simp
qed

lemma steps_reachable:
  "(step lib cfg)\<^sup>*\<^sup>* db db' \<Longrightarrow> reachable lib cfg db \<Longrightarrow> reachable lib cfg db'"
  by (induction rule: rtranclp_induct) (auto intro: reachable.after)

lemma row_ok_cases:
  "row_ok db r \<Longrightarrow>
     (o_status r = 1 \<and> o_download_token r = None) \<or>
     (o_status r = 2 \<and> o_download_token r \<noteq> None)"
  by (auto simp: row_ok_def split: option.splits)

subsection \<open>The examples\<close>

lemma pay_create_example:
  "pay_create lib0 cfg0 gw_paid [] ''2026-01-01T00:00:00'' [(''email'', JStr '' Buyer@X.com '')] ''id1'' ''co1''
   = ([order1], Inr (JSONResponse (JDict [(''ok'', JBool True),
          (''checkoutUrl'', JStr ''https://gw/pay?token=T1''), (''token'', JStr ''T1'')])))"
  by code_simp

lemma confirm_example:
  "flow_confirmation lib0 cfg0 gw_paid [order1] ''2026-01-02T00:00:00'' (Some ''T1'') uuid_a
   = ([order1_paid], [Send_email ''buyer@x.com'' (''https://shop/download/'' @ uuid_a)],
      Inr (JSONResponse (JDict [(''ok'', JBool True)])))"
  by code_simp

lemma reachable_order1: "reachable lib0 cfg0 [order1]"
proof -
  have "step lib0 cfg0 [] (fst (pay_create lib0 cfg0 gw_paid [] ''2026-01-01T00:00:00''
          [(''email'', JStr '' Buyer@X.com '')] ''id1'' ''co1''))"
    by (rule step.initiate)
  then have "step lib0 cfg0 [] [order1]" by (simp add: pay_create_example)
  with reachable.empty show ?thesis by (rule reachable.after)
qed

lemma uuid_a_hex: "is_uuid_hex uuid_a"
  by (simp add: is_uuid_hex_def uuid_a_def)

lemma step_order1_paid: "step lib0 cfg0 [order1] [order1_paid]"
proof -
  have "step lib0 cfg0 [order1] (fst (flow_confirmation lib0 cfg0 gw_paid [order1]
          ''2026-01-02T00:00:00'' (Some ''T1'') uuid_a))"
    using uuid_a_hex by (rule step.confirm)
  then show ?thesis by (simp add: confirm_example)
qed

lemma status_example: "reported_status lib0 cfg0 gw_paid (Some ''T1'') = Inr 2"
  by code_simp

lemma get_example:
  "db_get_by_flow_token [order1] (Some ''T1'') = Some (''id1'', ''buyer@x.com'', 1, None)"
  by code_simp

lemma reachable_order1_paid: "reachable lib0 cfg0 [order1_paid]"
  using reachable_order1 step_order1_paid by (rule reachable.after)

lemma norm_example: "lower (strip '' Buyer@X.com '') = ''buyer@x.com''"
  by code_simp

subsection \<open>Marking an order paid\<close>

lemma mark_paid_twice:
  "db_mark_paid (db_mark_paid db now1 (Some t) d) now2 (Some t) d = db_mark_paid db now2 (Some t) d"
  by (simp add: mark_paid_row)

lemma get_after_mark_paid:
  assumes "db_get_by_flow_token db (Some t) = Some (i, email, st, existing_token)"
  shows "db_get_by_flow_token (db_mark_paid db now (Some t) d) (Some t) = Some (i, email, 2, Some d)"
proof -
  let ?f = "\<lambda>r. if o_flow_token r = t
              then r\<lparr>o_status := 2, o_download_token := Some d, o_paid_at := Some now\<rparr>
              else r"
  from assms obtain q where q: "find (\<lambda>r. o_flow_token r = t) db = Some q"
    and qi: "o_id q = i" "o_email q = email"
    by (auto simp: db_get_by_flow_token_def split: option.splits)
  from q have qt: "o_flow_token q = t"
    using find_in_set[of "\<lambda>r. o_flow_token r = t" db q] by simp
  have "find (\<lambda>r. o_flow_token r = t) (map ?f db) = map_option ?f (find (\<lambda>r. o_flow_token r = t) db)"
    by (rule find_map_same) simp
  with q qt qi show ?thesis
    by (simp add: db_get_by_flow_token_def mark_paid_row)
qed

lemma mark_paid_rows:
  assumes "r \<in> set (db_mark_paid db now (Some t) d)" and "o_flow_token r = t"
  shows "o_status r = 2 \<and> o_download_token r = Some d"
proof -
  from assms(1) obtain r0 where r0:
    "r = (if o_flow_token r0 = t
          then r0\<lparr>o_status := 2, o_download_token := Some d, o_paid_at := Some now\<rparr>
          else r0)"
    unfolding mark_paid_row set_map by blast
  show ?thesis
  proof (cases "o_flow_token r0 = t")
    case True
    with r0 show ?thesis by simp
  next
    case False
    with r0 assms(2) show ?thesis by simp
  qed
qed

lemma mark_paid_count:
  "length (filter (\<lambda>r. o_flow_token r = t \<and> o_status r = 2) (db_mark_paid db now (Some t) d)) =
   length (filter (\<lambda>r. o_flow_token r = t) db)"
  by (induction db) (auto simp: mark_paid_row)

lemma mark_paid_others:
  "filter (\<lambda>r. o_flow_token r \<noteq> t) (db_mark_paid db now (Some t) d) =
   filter (\<lambda>r. o_flow_token r \<noteq> t) db"
  by (induction db) (auto simp: mark_paid_row)

subsection \<open>The status read at a confirmation\<close>

lemma reported_status_cases:
  "reported_status lib cfg gw token =
     (case gw (flow_get_status_request lib cfg token) of
        Raised \<Rightarrow> Inl RequestError
      | Body data \<Rightarrow>
          (case data of
             JDict kvs \<Rightarrow> (case map_of kvs ''status'' of None \<Rightarrow> Inr 0 | Some v \<Rightarrow> py_int lib v)
           | _ \<Rightarrow> Inl AttributeError))"
  by (simp add: reported_status_def flow_get_status_def dict_get_def py_int_def
           split: reply.splits json.splits option.splits)

lemma get_by_flow_token_None:
  "(db_get_by_flow_token db token = None) = (\<forall>r\<in>set db. Some (o_flow_token r) \<noteq> token)"
proof -
  have "(db_get_by_flow_token db token = None) =
        (find (\<lambda>r. Some (o_flow_token r) = token) db = None)"
    by (simp add: db_get_by_flow_token_def split: option.splits)
  then show ?thesis by (simp add: find_None_iff) blast
qed

subsection \<open>Payment creation on a string\<close>

lemma pay_create_str:
  assumes "map_of payload ''email'' = Some (JStr raw)"
  shows "pay_create lib cfg gw db now payload order_id commerce_order =
     (if \<not> is_valid_email (lower (strip raw))
      then (db, Inl (HTTPException 400 (''Email inv'' @ [CHR 0xE1] @ ''lido'')))
      else
        (case gw (flow_post_request lib cfg ''/payment/create''
                    (pay_create_params cfg commerce_order (lower (strip raw)))) of
           Raised \<Rightarrow> (db, Inl RequestError)
         | Body data \<Rightarrow>
            (case subscript data ''token'' of
               Inl e \<Rightarrow> (db, Inl e)
             | Inr token \<Rightarrow>
                (case subscript data ''url'' of
                   Inl e \<Rightarrow> (db, Inl e)
                 | Inr url \<Rightarrow>
                    (case db_create_order db now order_id (lower (strip raw)) commerce_order token of
                       Inl e \<Rightarrow> (db, Inl e)
                     | Inr db' \<Rightarrow>
                        (db', Inr (JSONResponse (JDict
                           [(''ok'', JBool True),
                            (''checkoutUrl'', JStr (py_str lib url @ ''?token='' @ py_str lib token)),
                            (''token'', token)]))))))))"
proof (cases "raw = []")
  case True
  with assms show ?thesis
    by (simp add: pay_create_def py_bool_def flow_post_def Let_def
             split: reply.splits sum.splits)
next
  case False
  with assms show ?thesis
    by (simp add: pay_create_def py_bool_def flow_post_def Let_def
             split: reply.splits sum.splits)
qed

subsection \<open>What the e-mail pattern accepts\<close>

lemma re_match_Many:
  "re_match (Many p # items) s =
     (\<exists>a b. s = a @ b \<and> a \<noteq> [] \<and> (\<forall>c\<in>set a. p c) \<and> re_match items b)"
proof (induction s)
  case Nil
  show ?case by simp
next
  case (Cons c cs)
  show ?case
  proof
    assume "re_match (Many p # items) (c # cs)"
    then have pc: "p c" and rest: "re_match (Many p # items) cs \<or> re_match items cs" by simp_all
    from rest show "\<exists>a b. c # cs = a @ b \<and> a \<noteq> [] \<and> (\<forall>c\<in>set a. p c) \<and> re_match items b"
    proof
      assume "re_match (Many p # items) cs"
      with Cons.IH obtain a b where "cs = a @ b" "\<forall>c\<in>set a. p c" "re_match items b" by blast
      with pc have "c # cs = (c # a) @ b \<and> c # a \<noteq> [] \<and> (\<forall>x\<in>set (c # a). p x) \<and> re_match items b"
        by simp
      then show ?thesis by blast
    next
      assume "re_match items cs"
      with pc have "c # cs = [c] @ cs \<and> [c] \<noteq> [] \<and> (\<forall>x\<in>set [c]. p x) \<and> re_match items cs"
        by simp
      then show ?thesis by blast
    qed
  next
    assume "\<exists>a b. c # cs = a @ b \<and> a \<noteq> [] \<and> (\<forall>c\<in>set a. p c) \<and> re_match items b"
    then obtain a b where ab: "c # cs = a @ b" "a \<noteq> []" "\<forall>c\<in>set a. p c" "re_match items b"
      by blast
    then obtain a' where a': "a = c # a'" "cs = a' @ b" by (cases a) auto
    with ab have pc: "p c" by simp
    show "re_match (Many p # items) (c # cs)"
    proof (cases "a' = []")
      case True
      with a' ab pc show ?thesis by simp
    next
      case False
      with a' ab have "\<exists>a b. cs = a @ b \<and> a \<noteq> [] \<and> (\<forall>c\<in>set a. p c) \<and> re_match items b"
        by auto
      with Cons.IH pc show ?thesis by simp
    qed
  qed
qed

lemma re_match_One:
  "re_match (One p # items) s = (\<exists>c cs. s = c # cs \<and> p c \<and> re_match items cs)"
  by (cases s) auto

lemma email_shape:
  assumes "re_match EMAIL_REGEX e"
  shows "\<exists>l d1 d2 t. e = l @ CHR ''@'' # d1 @ CHR ''.'' # d2 @ t \<and>
        l \<noteq> [] \<and> d1 \<noteq> [] \<and> d2 \<noteq> [] \<and>
        (\<forall>c\<in>set (l @ d1 @ d2). not_at_space c) \<and> (t = [] \<or> t = [CHR 0x0A])"
proof -
  from assms obtain l r1 where 1: "e = l @ r1" "l \<noteq> []" "\<forall>c\<in>set l. not_at_space c"
    and m1: "re_match [One (\<lambda>c. c = CHR ''@''), Many not_at_space,
                       One (\<lambda>c. c = CHR ''.''), Many not_at_space] r1"
    unfolding EMAIL_REGEX_def re_match_Many by blast
  from m1 obtain r2 where 2: "r1 = CHR ''@'' # r2"
    and m2: "re_match [Many not_at_space, One (\<lambda>c. c = CHR ''.''), Many not_at_space] r2"
    unfolding re_match_One by blast
  from m2 obtain d1 r3 where 3: "r2 = d1 @ r3" "d1 \<noteq> []" "\<forall>c\<in>set d1. not_at_space c"
    and m3: "re_match [One (\<lambda>c. c = CHR ''.''), Many not_at_space] r3"
    unfolding re_match_Many by blast
  from m3 obtain r4 where 4: "r3 = CHR ''.'' # r4" and m4: "re_match [Many not_at_space] r4"
    unfolding re_match_One by blast
  from m4 obtain d2 t where 5: "r4 = d2 @ t" "d2 \<noteq> []" "\<forall>c\<in>set d2. not_at_space c"
    and m5: "re_match [] t"
    unfolding re_match_Many by blast
  from m5 have 6: "t = [] \<or> t = [CHR 0x0A]" by simp
  from 1 2 3 4 5 have "e = l @ CHR ''@'' # d1 @ CHR ''.'' # d2 @ t" by simp
  moreover from 1 3 5 have "\<forall>c\<in>set (l @ d1 @ d2). not_at_space c" by auto
  ultimately show ?thesis using 1(2) 3(2) 5(2) 6 by blast
qed

lemma valid_email_has_at_and_dot:
  assumes "is_valid_email e"
  shows "CHR ''@'' \<in> set e \<and> CHR ''.'' \<in> set (dropWhile (\<lambda>c. c \<noteq> CHR ''@'') e)"
proof -
  from assms have "re_match EMAIL_REGEX e" by (simp add: is_valid_email_def)
  then obtain l d1 d2 t where e: "e = l @ CHR ''@'' # d1 @ CHR ''.'' # d2 @ t"
    and l: "\<forall>c\<in>set (l @ d1 @ d2). not_at_space c"
    using email_shape by blast
  from l have "\<forall>c\<in>set l. c \<noteq> CHR ''@''" by (simp add: not_at_space_def)
  then have "dropWhile (\<lambda>c. c \<noteq> CHR ''@'') e = CHR ''@'' # d1 @ CHR ''.'' # d2 @ t"
    unfolding e by (simp add: dropWhile_append)
  with e show ?thesis by simp
qed

subsection \<open>Lower case and stripping\<close>

lemma of_char_lower_char:
  "(of_char (lower_char c) :: nat) =
     (if (65 \<le> (of_char c :: nat) \<and> (of_char c :: nat) \<le> 90) \<or>
         (192 \<le> (of_char c :: nat) \<and> (of_char c :: nat) \<le> 222 \<and> (of_char c :: nat) \<noteq> 215)
      then of_char c + 32 else of_char c)"
proof -
  define n where "n = (of_char c :: nat)"
  have small: "n + 32 < 256" if "n \<le> 222" using that by simp
  have "(of_char (char_of (n + 32)) :: nat) = (n + 32) mod 256" by (rule of_char_of)
  then have up: "(of_char (char_of (n + 32)) :: nat) = n + 32" if "n \<le> 222"
    using small[OF that] by simp
  have "(of_char (if (65 \<le> n \<and> n \<le> 90) \<or> (192 \<le> n \<and> n \<le> 222 \<and> n \<noteq> 215)
                  then char_of (n + 32) else c) :: nat) =
        (if (65 \<le> n \<and> n \<le> 90) \<or> (192 \<le> n \<and> n \<le> 222 \<and> n \<noteq> 215)
         then n + 32 else n)"
    using up by (auto simp: n_def)
  then show ?thesis
    unfolding lower_char_def Let_def n_def .
qed

lemma lower_char_fixes:
  assumes "(of_char k :: nat) < 65"
  shows "(lower_char c = k) = (c = k)"
proof
  assume "lower_char c = k"
  then have "(of_char (lower_char c) :: nat) = of_char k" by simp
  with assms have "(of_char c :: nat) = of_char k"
    unfolding of_char_lower_char by (simp split: if_splits)
  then show "c = k" by (simp only: of_char_eq_iff)
next
  assume "c = k"
  with assms show "lower_char c = k" by (simp add: lower_char_def Let_def)
qed

lemma lower_char_at: "(lower_char c = CHR ''@'') = (c = CHR ''@'')"
  by (rule lower_char_fixes) simp

lemma lower_char_dot: "(lower_char c = CHR ''.'') = (c = CHR ''.'')"
  by (rule lower_char_fixes) simp

lemma strip_parts: "\<exists>a b. s = a @ strip s @ b \<and> (\<forall>c\<in>set a. py_isspace c)"
proof -
  let ?x = "dropWhile py_isspace s"
  have "rev ?x = takeWhile py_isspace (rev ?x) @ dropWhile py_isspace (rev ?x)"
    by (simp only: takeWhile_dropWhile_id)
  then have "rev (rev ?x) = rev (takeWhile py_isspace (rev ?x) @ dropWhile py_isspace (rev ?x))"
    by (rule arg_cong)
  then have x: "?x = strip s @ rev (takeWhile py_isspace (rev ?x))"
    by (simp only: rev_rev_ident rev_append strip_def)
  have "s = takeWhile py_isspace s @ ?x" by (simp only: takeWhile_dropWhile_id)
  with x have "s = takeWhile py_isspace s @ strip s @ rev (takeWhile py_isspace (rev ?x))"
    by (simp only:)
  moreover have "\<forall>c\<in>set (takeWhile py_isspace s). py_isspace c"
    by (auto dest: set_takeWhileD)
  ultimately show ?thesis by blast
qed

lemma at_no_space: "\<not> py_isspace (CHR ''@'')"
  by (simp add: py_isspace_def)

lemma normalised_has_at_and_dot:
  assumes "CHR ''@'' \<in> set (lower (strip raw))"
    and "CHR ''.'' \<in> set (dropWhile (\<lambda>c. c \<noteq> CHR ''@'') (lower (strip raw)))"
  shows "CHR ''@'' \<in> set raw \<and> CHR ''.'' \<in> set (dropWhile (\<lambda>c. c \<noteq> CHR ''@'') raw)"
proof -
  obtain a b where ab: "raw = a @ strip raw @ b" and sp: "\<forall>c\<in>set a. py_isspace c"
    using strip_parts by blast
  have comp: "((\<lambda>c. c \<noteq> CHR ''@'') \<circ> lower_char) = (\<lambda>c. c \<noteq> CHR ''@'')"
    by (auto simp: lower_char_at)
  from assms(1) obtain x where "x \<in> set (strip raw)" "lower_char x = CHR ''@''"
    by (auto simp: lower_def)
  then have at: "CHR ''@'' \<in> set (strip raw)" by (simp add: lower_char_at)
  from assms(2) have "CHR ''.'' \<in> lower_char ` set (dropWhile (\<lambda>c. c \<noteq> CHR ''@'') (strip raw))"
    by (simp add: lower_def dropWhile_map comp)
  then obtain y where "y \<in> set (dropWhile (\<lambda>c. c \<noteq> CHR ''@'') (strip raw))"
    "lower_char y = CHR ''.''" by auto
  then have dot: "CHR ''.'' \<in> set (dropWhile (\<lambda>c. c \<noteq> CHR ''@'') (strip raw))"
    by (simp add: lower_char_dot)
  from sp have na: "\<forall>c\<in>set a. c \<noteq> CHR ''@''" using at_no_space by blast
  have "dropWhile (\<lambda>c. c \<noteq> CHR ''@'') (a @ strip raw @ b) =
        dropWhile (\<lambda>c. c \<noteq> CHR ''@'') (strip raw) @ b"
  proof -
    from na have "dropWhile (\<lambda>c. c \<noteq> CHR ''@'') (a @ strip raw @ b) =
        dropWhile (\<lambda>c. c \<noteq> CHR ''@'') (strip raw @ b)"
      by simp
    also from at have "\<dots> = dropWhile (\<lambda>c. c \<noteq> CHR ''@'') (strip raw) @ b"
      by (rule dropWhile_append1) simp
    finally show ?thesis .
  qed
  with ab have "dropWhile (\<lambda>c. c \<noteq> CHR ''@'') raw = dropWhile (\<lambda>c. c \<noteq> CHR ''@'') (strip raw) @ b"
    by simp
  with dot have "CHR ''.'' \<in> set (dropWhile (\<lambda>c. c \<noteq> CHR ''@'') raw)" by simp
  moreover have "CHR ''@'' \<in> set raw"
  proof -
    from at have "CHR ''@'' \<in> set (a @ strip raw @ b)" by simp
    with ab show ?thesis by simp
  qed
  ultimately show ?thesis by blast
qed

lemma lower_char_idem: "lower_char (lower_char c) = lower_char c"
proof -
  define n where "n = (of_char c :: nat)"
  define m where "m = (of_char (lower_char c) :: nat)"
  have m: "m = (if (65 \<le> n \<and> n \<le> 90) \<or> (192 \<le> n \<and> n \<le> 222 \<and> n \<noteq> 215) then n + 32 else n)"
    unfolding m_def n_def by (rule of_char_lower_char)
  have "(of_char (lower_char (lower_char c)) :: nat) =
        (if (65 \<le> m \<and> m \<le> 90) \<or> (192 \<le> m \<and> m \<le> 222 \<and> m \<noteq> 215) then m + 32 else m)"
    unfolding m_def by (rule of_char_lower_char)
  also have "\<dots> = m" using m by (simp split: if_splits)
  finally have "(of_char (lower_char (lower_char c)) :: nat) = of_char (lower_char c)"
    by (simp only: m_def)
  then show ?thesis by (simp only: of_char_eq_iff)
qed

lemma lower_idem: "lower (lower s) = lower s"
  by (simp add: lower_def lower_char_idem)

lemma isspace_lower_char: "py_isspace (lower_char c) = py_isspace c"
proof -
  define n where "n = (of_char c :: nat)"
  define m where "m = (of_char (lower_char c) :: nat)"
  have m: "m = (if (65 \<le> n \<and> n \<le> 90) \<or> (192 \<le> n \<and> n \<le> 222 \<and> n \<noteq> 215) then n + 32 else n)"
    unfolding m_def n_def by (rule of_char_lower_char)
  have "(m \<in> {9, 10, 11, 12, 13, 28, 29, 30, 31, 32, 133, 160}) =
        (n \<in> {9, 10, 11, 12, 13, 28, 29, 30, 31, 32, 133, 160})"
    using m by (simp split: if_splits)
  then show ?thesis
    unfolding py_isspace_def m_def n_def .
qed

lemma strip_last:
  assumes ne: "strip s \<noteq> []"
  shows "\<not> py_isspace (last (strip s))"
proof -
  let ?z = "dropWhile py_isspace (rev (dropWhile py_isspace s))"
  from ne have z: "?z \<noteq> []" by (simp add: strip_def)
  then have "\<not> py_isspace (hd ?z)" by (rule hd_dropWhile)
  moreover from z have "last (rev ?z) = hd ?z" by (simp add: last_rev)
  ultimately have "\<not> py_isspace (last (rev ?z))" by simp
  then show ?thesis unfolding strip_def .
qed

lemma strip_hd:
  assumes ne: "strip s \<noteq> []"
  shows "\<not> py_isspace (hd (strip s))"
proof -
  let ?x = "dropWhile py_isspace s"
  let ?z = "dropWhile py_isspace (rev ?x)"
  from ne have z: "?z \<noteq> []" by (simp add: strip_def)
  have x: "?x \<noteq> []"
  proof
    assume "?x = []"
    then have "?z = []" by (simp only: rev.simps(1) dropWhile.simps(1))
    with z show False by (simp only:)
  qed
  have "last (rev ?x) = last (takeWhile py_isspace (rev ?x) @ ?z)"
    by (simp only: takeWhile_dropWhile_id)
  also have "\<dots> = last ?z" using z by (rule last_appendR)
  finally have "last (rev ?x) = last ?z" .
  with x have "last ?z = hd ?x" by (simp add: last_rev)
  moreover from x have "\<not> py_isspace (hd ?x)" by (rule hd_dropWhile)
  moreover from z have "hd (rev ?z) = last ?z" by (simp add: hd_rev)
  ultimately have "\<not> py_isspace (hd (rev ?z))" by simp
  then show ?thesis unfolding strip_def .
qed

lemma strip_fixed:
  assumes "e = [] \<or> (\<not> py_isspace (hd e) \<and> \<not> py_isspace (last e))"
  shows "strip e = e"
proof (cases "e = []")
  case True
  then show ?thesis by (simp add: strip_def)
next
  case False
  with assms have h: "\<not> py_isspace (hd e)" and l: "\<not> py_isspace (last e)" by simp_all
  from False h have 1: "dropWhile py_isspace e = e" by (cases e) simp_all
  from False l have "\<not> py_isspace (hd (rev e))" by (simp add: hd_rev)
  with False have 2: "dropWhile py_isspace (rev e) = rev e" by (cases "rev e") simp_all
  show ?thesis unfolding strip_def 1 2 by simp
qed

lemma strip_lower_strip: "strip (lower (strip s)) = lower (strip s)"
proof (rule strip_fixed, cases "strip s = []")
  case True
  then show "lower (strip s) = [] \<or>
      (\<not> py_isspace (hd (lower (strip s))) \<and> \<not> py_isspace (last (lower (strip s))))"
    by (simp add: lower_def)
next
  case False
  then show "lower (strip s) = [] \<or>
      (\<not> py_isspace (hd (lower (strip s))) \<and> \<not> py_isspace (last (lower (strip s))))"
    using strip_hd[OF False] strip_last[OF False]
    by (simp add: lower_def hd_map last_map isspace_lower_char)
qed

subsection \<open>Payment creation: the other bodies, and its errors\<close>

lemma pay_create_falsy:
  assumes "map_of payload ''email'' = None \<or> (\<exists>v. map_of payload ''email'' = Some v \<and> \<not> py_bool v)"
  shows "pay_create lib cfg gw db now payload order_id commerce_order =
           (db, Inl (HTTPException 400 (''Email inv'' @ [CHR 0xE1] @ ''lido'')))"
proof -
  have e: "\<not> is_valid_email (lower (strip []))"
    by (simp add: is_valid_email_def lower_def strip_def)
  from assms show ?thesis
    by (auto simp: pay_create_def Let_def py_bool_def e)
qed

lemma subscript_error: "subscript v k = Inl e \<Longrightarrow> e = KeyError k \<or> e = TypeError"
  by (auto simp: subscript_def split: json.splits option.splits)

lemma db_create_order_error:
  "db_create_order db now i e c t = Inl err \<Longrightarrow>
     err = IntegrityError \<or> err = OverflowError \<or> err = ProgrammingError"
  by (auto simp: db_create_order_def bind_text_def split: json.splits sum.splits if_splits)

lemma db_create_order_row:
  "db_create_order db now i e c t = Inr db' \<Longrightarrow> \<exists>r. db' = db @ [r] \<and> o_email r = e"
  by (auto simp: db_create_order_def split: sum.splits if_splits)

lemma pay_create_gateway_once:
  "pay_create lib cfg gw db now payload order_id commerce_order =
   pay_create lib cfg (\<lambda>req. gw (flow_post_request lib cfg ''/payment/create''
        (pay_create_params cfg commerce_order
           (lower (strip (case map_of payload ''email'' of Some (JStr raw) \<Rightarrow> raw | _ \<Rightarrow> []))))))
     db now payload order_id commerce_order"
  by (simp add: pay_create_def flow_post_def Let_def py_bool_def split: option.splits json.splits)

lemma update_other: "k \<noteq> k' \<Longrightarrow> map_of (AList.update k v ps) k' = map_of ps k'"
  by (simp add: update_conv')

lemma request_email:
  "(case flow_post_request lib cfg endpoint (pay_create_params cfg commerce_order e) of
      Post u ps \<Rightarrow> map_of ps ''email''
    | Get u ps \<Rightarrow> None) = Some (JStr e)"
  by (simp add: flow_post_request_def Let_def update_other pay_create_params_def)

lemma pay_create_nonstring:
  assumes "map_of payload ''email'' = Some v" and "py_bool v" and "\<forall>raw. v \<noteq> JStr raw"
  shows "pay_create lib cfg gw db now payload order_id commerce_order = (db, Inl AttributeError)"
  using assms by (cases v) (simp_all add: pay_create_def Let_def)

lemma pay_create_accepts_strings:
  assumes "snd (pay_create lib cfg gw db now payload order_id commerce_order) = Inr resp"
  shows "\<exists>raw. map_of payload ''email'' = Some (JStr raw)"
proof (rule ccontr)
  assume n: "\<nexists>raw. map_of payload ''email'' = Some (JStr raw)"
  show False
  proof (cases "map_of payload ''email''")
    case None
    then show False using assms pay_create_falsy[of payload lib cfg gw db now order_id commerce_order]
      by simp
  next
    case (Some v)
    show False
    proof (cases "py_bool v")
      case True
      from n Some have "\<forall>raw. v \<noteq> JStr raw" by simp
      from pay_create_nonstring[OF Some True this] assms show False by simp
    next
      case False
      with Some assms pay_create_falsy[of payload lib cfg gw db now order_id commerce_order]
      show False by simp
    qed
  qed
qed

subsection \<open>Sorting and signing\<close>

lemma sort_key_fst_unique:
  assumes "distinct (map fst ps)" and "distinct (map fst qs)" and "set ps = set qs"
  shows "sort_key fst ps = sort_key fst qs"
proof (rule map_sorted_distinct_set_unique[where f = fst])
  from assms(1) have inj: "inj_on fst (set ps)" and d: "distinct ps"
    by (simp_all add: distinct_map)
  from assms(2) have dq: "distinct qs" by (simp add: distinct_map)
  from inj assms(3) show "inj_on fst (set (sort_key fst ps) \<union> set (sort_key fst qs))"
    by simp
  show "sorted (map fst (sort_key fst ps))" by (rule sorted_sort_key)
  show "sorted (map fst (sort_key fst qs))" by (rule sorted_sort_key)
  from inj d show "distinct (map fst (sort_key fst ps))" by (simp add: distinct_map)
  from inj dq assms(3) show "distinct (map fst (sort_key fst qs))" by (simp add: distinct_map)
  from assms(3) show "set (sort_key fst ps) = set (sort_key fst qs)" by simp
qed

lemma update_member: "(k, v) \<in> set (AList.update k v ps)"
  by (induction ps) auto

lemma pay_create_signed_message:
  "flow_sign_raw lib (AList.update ''apiKey'' (JStr (FLOW_API_KEY cfg))
       (pay_create_params cfg commerce_order e)) =
     ''amount350'' @ ''apiKey'' @ FLOW_API_KEY cfg @ ''commerceOrder'' @ commerce_order @
     ''currencyCLP'' @ ''email'' @ e @ ''subjectPack IA para PYMES 2026'' @
     ''urlConfirmation'' @ PUBLIC_BASE_URL cfg @ ''/flow/confirmation'' @
     ''urlReturn'' @ PUBLIC_BASE_URL cfg @ ''/flow/return''"
  by (simp add: flow_sign_raw_def pay_create_params_def py_str_def str_of_int_def digits.simps)

section \<open>The claims\<close>

text \<open>
  C1: let the gateway report status 2 at both calls and let the table hold an order
  with the gateway token, whatever its download token (none, or one assigned before).
  Then two calls of confirm with that token answer \<open>{ok: true}\<close> both; the second
  call finds the download token \<open>d\<close> that the first one stored and stores \<open>d\<close> again
  instead of the new \<open>uuid4\<close> value it was given, so it queues the same link and
  changes only \<open>paid_at\<close>. No row is added: the orders with that gateway token are
  as many as before (exactly one for a token that identifies one order), all of them
  Paid with the token \<open>d\<close>, and the other orders are as they were.
\<close>

theorem confirm_twice_stable_token:
  assumes hex: "is_uuid_hex hex_a"
    and paid_a: "reported_status lib cfg gw_a (Some t) = Inr 2"
    and paid_b: "reported_status lib cfg gw_b (Some t) = Inr 2"
    and first: "db_get_by_flow_token db (Some t) = Some (i, email, st, existing_token)"
  shows
    "let d = str_or existing_token hex_a;
         ok = Inr (JSONResponse (JDict [(''ok'', JBool True)]));
         mail = [Send_email email (DOWNLOAD_BASE_URL cfg @ ''/download/'' @ d)];
         db_a = db_mark_paid db now_a (Some t) d;
         db_b = db_mark_paid db now_b (Some t) d
     in flow_confirmation lib cfg gw_a db now_a (Some t) hex_a = (db_a, mail, ok) \<and>
        flow_confirmation lib cfg gw_b db_a now_b (Some t) hex_b = (db_b, mail, ok) \<and>
        length db_b = length db \<and>
        (\<forall>r\<in>set db_b. o_flow_token r = t \<longrightarrow> o_status r = 2 \<and> o_download_token r = Some d) \<and>
        length (filter (\<lambda>r. o_flow_token r = t \<and> o_status r = 2) db_b) =
          length (filter (\<lambda>r. o_flow_token r = t) db) \<and>
        filter (\<lambda>r. o_flow_token r \<noteq> t) db_b = filter (\<lambda>r. o_flow_token r \<noteq> t) db"
proof -
  define d where "d = str_or existing_token hex_a"
  from hex have "hex_a \<noteq> []" by (rule is_uuid_hex_nonempty)
  then have dne: "d \<noteq> []" unfolding d_def by (rule str_or_nonempty)
  then have reuse: "str_or (Some d) hex_b = d" by (simp add: str_or_def)
  have c1: "flow_confirmation lib cfg gw_a db now_a (Some t) hex_a =
        (db_mark_paid db now_a (Some t) d,
         [Send_email email (DOWNLOAD_BASE_URL cfg @ ''/download/'' @ d)],
         Inr (JSONResponse (JDict [(''ok'', JBool True)])))"
    by (simp add: flow_confirmation_by_status paid_a first d_def)
  have c2: "flow_confirmation lib cfg gw_b (db_mark_paid db now_a (Some t) d) now_b (Some t) hex_b =
        (db_mark_paid db now_b (Some t) d,
         [Send_email email (DOWNLOAD_BASE_URL cfg @ ''/download/'' @ d)],
         Inr (JSONResponse (JDict [(''ok'', JBool True)])))"
    by (simp add: flow_confirmation_by_status paid_b get_after_mark_paid[OF first] reuse mark_paid_twice)
  have len: "length (db_mark_paid db now_b (Some t) d) = length db"
    by (simp add: db_mark_paid_def)
  have rows: "\<forall>r\<in>set (db_mark_paid db now_b (Some t) d).
        o_flow_token r = t \<longrightarrow> o_status r = 2 \<and> o_download_token r = Some d"
    using mark_paid_rows by blast
  show ?thesis
    unfolding Let_def d_def[symmetric]
    using c1 c2 len rows mark_paid_count[of t db now_b d] mark_paid_others[of t db now_b d]
    by blast
qed

theorem confirm_twice_stable_token_witness:
  "is_uuid_hex uuid_a \<and>
   reported_status lib0 cfg0 gw_paid (Some ''T1'') = Inr 2 \<and>
   db_get_by_flow_token [order1] (Some ''T1'') = Some (''id1'', ''buyer@x.com'', 1, None) \<and>
   flow_confirmation lib0 cfg0 gw_paid [order1] ''2026-01-02T00:00:00'' (Some ''T1'') uuid_a =
     ([order1_paid], [Send_email ''buyer@x.com'' (''https://shop/download/'' @ uuid_a)],
      Inr (JSONResponse (JDict [(''ok'', JBool True)]))) \<and>
   flow_confirmation lib0 cfg0 gw_paid [order1_paid] ''2026-01-03T00:00:00'' (Some ''T1'') uuid_b =
     ([order1_paid_again], [Send_email ''buyer@x.com'' (''https://shop/download/'' @ uuid_a)],
      Inr (JSONResponse (JDict [(''ok'', JBool True)]))) \<and>
   o_download_token order1_paid_again = Some uuid_a \<and>
   length (filter (\<lambda>r. o_flow_token r = ''T1'' \<and> o_status r = 2) [order1_paid_again]) = 1"
  using confirm_twice_stable_token[OF uuid_a_hex status_example status_example get_example,
          where now_a = "''2026-01-02T00:00:00''" and hex_b = uuid_b
            and now_b = "''2026-01-03T00:00:00''"]
        uuid_a_hex status_example get_example
  by (simp add: Let_def str_or_def db_mark_paid_def order1_def order1_paid_def
        order1_paid_again_def cfg0_def)

text \<open>
  C2: in every table that requests can make of the empty one, and along every further
  sequence of requests (initiate, confirm, authorizeDownload), each order keeps its
  place, its id, its commerce-order reference and its gateway token; a Paid order
  (status 2) stays Paid; a download token, once assigned, is never replaced; and in
  every such table an order is either Pending without a download token or Paid with
  one, so the token is assigned exactly when the order goes from Pending to Paid.
\<close>

theorem token_once_status_forward:
  assumes r: "reachable lib cfg db" and s: "(step lib cfg)\<^sup>*\<^sup>* db db'" and i: "i < length db"
  shows "i < length db' \<and>
         o_id (db' ! i) = o_id (db ! i) \<and>
         o_commerce_order (db' ! i) = o_commerce_order (db ! i) \<and>
         o_flow_token (db' ! i) = o_flow_token (db ! i) \<and>
         (o_status (db ! i) = 2 \<longrightarrow> o_status (db' ! i) = 2) \<and>
         (\<forall>d. o_download_token (db ! i) = Some d \<longrightarrow> o_download_token (db' ! i) = Some d) \<and>
         ((o_status (db ! i) = 1 \<and> o_download_token (db ! i) = None) \<or>
          (o_status (db ! i) = 2 \<and> o_download_token (db ! i) \<noteq> None)) \<and>
         ((o_status (db' ! i) = 1 \<and> o_download_token (db' ! i) = None) \<or>
          (o_status (db' ! i) = 2 \<and> o_download_token (db' ! i) \<noteq> None))"
  using s
proof (induction rule: rtranclp_induct)
  case base
  from r i have "row_ok db (db ! i)"
    using reachable_store_inv[of lib cfg db] by (simp add: store_inv_def list_all_length)
  then show ?case using i row_ok_cases by blast
next
  case (step y z)
  from step.hyps(1) r have ry: "reachable lib cfg y" by (rule steps_reachable)
  then have invy: "store_inv y" by (rule reachable_store_inv)
  from step.IH have iy: "i < length y" by blast
  note one = step_rows[OF step.hyps(2) invy iy]
  from ry step.hyps(2) have "reachable lib cfg z" by (rule reachable.after)
  then have "store_inv z" by (rule reachable_store_inv)
  with one have "row_ok z (z ! i)" by (simp add: store_inv_def list_all_length)
  then have cz: "(o_status (z ! i) = 1 \<and> o_download_token (z ! i) = None) \<or>
          (o_status (z ! i) = 2 \<and> o_download_token (z ! i) \<noteq> None)" by (rule row_ok_cases)
  from step.IH one cz show ?case by simp
qed

theorem token_once_status_forward_witness:
  "reachable lib0 cfg0 [order1] \<and> (step lib0 cfg0)\<^sup>*\<^sup>* [order1] [order1_paid] \<and>
   (0::nat) < length [order1] \<and>
   o_status ([order1] ! 0) = 1 \<and> o_download_token ([order1] ! 0) = None \<and>
   o_status ([order1_paid] ! 0) = 2 \<and> o_download_token ([order1_paid] ! 0) = Some uuid_a"
  using token_once_status_forward[OF reachable_order1, of "[order1_paid]" 0] step_order1_paid reachable_order1
  by (simp add: order1_def order1_paid_def)

text \<open>
  C3, as claimed, fails: \<open>flow_confirmation\<close> has no handler around the status
  query. When the gateway call raises, and when the body holds a status that is no
  number, the exception ends the request and the caller gets an error, not
  \<open>{ok: true}\<close>.
\<close>

theorem webhook_error_counterexample:
  "flow_confirmation lib0 cfg0 gw_down [order1] ''2026-01-02T00:00:00'' (Some ''T1'') uuid_a =
     ([order1], [], Inl RequestError) \<and>
   flow_confirmation lib0 cfg0 gw_null_status [order1] ''2026-01-02T00:00:00'' (Some ''T1'') uuid_a =
     ([order1], [], Inl TypeError)"
  by (simp add: flow_confirmation_by_status reported_status_cases gw_down_def gw_null_status_def
        py_int_def)

text \<open>
  C3, amended: the status read from the gateway is an error when the call raises,
  when the body is no JSON object (AttributeError) and when \<open>int\<close> of its
  \<open>status\<close> raises; it is 0 for an object without \<open>status\<close>. Whenever a status is
  read, whatever its value, the handler answers \<open>{ok: true}\<close>; when reading it
  fails, the handler ends with that error, changes no row and queues no e-mail.
\<close>

theorem webhook_acknowledges_when_status_read:
  "reported_status lib cfg gw token =
     (case gw (flow_get_status_request lib cfg token) of
        Raised \<Rightarrow> Inl RequestError
      | Body data \<Rightarrow>
          (case data of
             JDict kvs \<Rightarrow> (case map_of kvs ''status'' of None \<Rightarrow> Inr 0 | Some v \<Rightarrow> py_int lib v)
           | _ \<Rightarrow> Inl AttributeError)) \<and>
   (case reported_status lib cfg gw token of
      Inr n \<Rightarrow> snd (snd (flow_confirmation lib cfg gw db now token hex)) =
                 Inr (JSONResponse (JDict [(''ok'', JBool True)]))
    | Inl e \<Rightarrow> flow_confirmation lib cfg gw db now token hex = (db, [], Inl e))"
proof
  show "reported_status lib cfg gw token =
     (case gw (flow_get_status_request lib cfg token) of
        Raised \<Rightarrow> Inl RequestError
      | Body data \<Rightarrow>
          (case data of
             JDict kvs \<Rightarrow> (case map_of kvs ''status'' of None \<Rightarrow> Inr 0 | Some v \<Rightarrow> py_int lib v)
           | _ \<Rightarrow> Inl AttributeError))"
    by (rule reported_status_cases)
next
  show "case reported_status lib cfg gw token of
      Inr n \<Rightarrow> snd (snd (flow_confirmation lib cfg gw db now token hex)) =
                 Inr (JSONResponse (JDict [(''ok'', JBool True)]))
    | Inl e \<Rightarrow> flow_confirmation lib cfg gw db now token hex = (db, [], Inl e)"
    by (simp add: flow_confirmation_by_status split: sum.splits option.splits)
qed

theorem webhook_acknowledges_when_status_read_witness:
  "reported_status lib0 cfg0 gw_pending (Some ''T1'') = Inr 1 \<and>
   snd (snd (flow_confirmation lib0 cfg0 gw_pending [order1] ''2026-01-02T00:00:00'' (Some ''T1'') uuid_a)) =
     Inr (JSONResponse (JDict [(''ok'', JBool True)])) \<and>
   reported_status lib0 cfg0 gw_down (Some ''T1'') = Inl RequestError \<and>
   flow_confirmation lib0 cfg0 gw_down [order1] ''2026-01-02T00:00:00'' (Some ''T1'') uuid_a =
     ([order1], [], Inl RequestError)"
proof -
  have s1: "reported_status lib0 cfg0 gw_pending (Some ''T1'') = Inr 1"
    by (simp add: reported_status_cases gw_pending_def py_int_def)
  have s2: "reported_status lib0 cfg0 gw_down (Some ''T1'') = Inl RequestError"
    by (simp add: reported_status_cases gw_down_def)
  from webhook_acknowledges_when_status_read[of lib0 cfg0 gw_pending "Some ''T1''" "[order1]"
          "''2026-01-02T00:00:00''" uuid_a]
  have a: "snd (snd (flow_confirmation lib0 cfg0 gw_pending [order1] ''2026-01-02T00:00:00''
                 (Some ''T1'') uuid_a)) = Inr (JSONResponse (JDict [(''ok'', JBool True)]))"
    by (simp add: s1)
  from webhook_acknowledges_when_status_read[of lib0 cfg0 gw_down "Some ''T1''" "[order1]"
          "''2026-01-02T00:00:00''" uuid_a]
  have b: "flow_confirmation lib0 cfg0 gw_down [order1] ''2026-01-02T00:00:00'' (Some ''T1'') uuid_a =
     ([order1], [], Inl RequestError)"
    by (simp add: s2)
  from s1 s2 a b show ?thesis by simp
qed

text \<open>
  C4: \<open>download\<close> answers 403 when the lookup by download token finds no row or a
  row whose status is not 2, and the redirect or the file otherwise (first part, any
  table). In a table that requests have made, every row with a download token is
  Paid, so there \<open>download\<close> succeeds exactly when some order has that download token
  and status Paid, and answers 403 for every other token string (second part).
\<close>

theorem download_authorized:
  assumes r: "reachable lib cfg db"
  shows "download cfg db0 d =
          (case find (\<lambda>r. o_download_token r = Some d) db0 of
             None \<Rightarrow> Inl (HTTPException 403 (''Link inv'' @ [CHR 0xE1] @ ''lido''))
           | Some q \<Rightarrow>
               if o_status q = 2
               then Inr (if PRODUCT_DRIVE_URL cfg \<noteq> []
                         then RedirectResponse (PRODUCT_DRIVE_URL cfg)
                         else FileResponse (PRODUCT_FILE cfg) ''application/zip'')
               else Inl (HTTPException 403 (''Link inv'' @ [CHR 0xE1] @ ''lido''))) \<and>
         download cfg db d =
          (if \<exists>r\<in>set db. o_download_token r = Some d \<and> o_status r = 2
           then Inr (if PRODUCT_DRIVE_URL cfg \<noteq> []
                     then RedirectResponse (PRODUCT_DRIVE_URL cfg)
                     else FileResponse (PRODUCT_FILE cfg) ''application/zip'')
           else Inl (HTTPException 403 (''Link inv'' @ [CHR 0xE1] @ ''lido'')))"
proof
  show "download cfg db0 d =
          (case find (\<lambda>r. o_download_token r = Some d) db0 of
             None \<Rightarrow> Inl (HTTPException 403 (''Link inv'' @ [CHR 0xE1] @ ''lido''))
           | Some q \<Rightarrow>
               if o_status q = 2
               then Inr (if PRODUCT_DRIVE_URL cfg \<noteq> []
                         then RedirectResponse (PRODUCT_DRIVE_URL cfg)
                         else FileResponse (PRODUCT_FILE cfg) ''application/zip'')
               else Inl (HTTPException 403 (''Link inv'' @ [CHR 0xE1] @ ''lido'')))"
    by (simp add: download_def db_get_by_download_token_def split: option.splits)
next
  show "download cfg db d =
          (if \<exists>r\<in>set db. o_download_token r = Some d \<and> o_status r = 2
           then Inr (if PRODUCT_DRIVE_URL cfg \<noteq> []
                     then RedirectResponse (PRODUCT_DRIVE_URL cfg)
                     else FileResponse (PRODUCT_FILE cfg) ''application/zip'')
           else Inl (HTTPException 403 (''Link inv'' @ [CHR 0xE1] @ ''lido'')))"
  proof (cases "find (\<lambda>r. o_download_token r = Some d) db")
    case None
    then have "\<not> (\<exists>r\<in>set db. o_download_token r = Some d \<and> o_status r = 2)"
      by (auto simp: find_None_iff)
    with None show ?thesis by (simp add: download_def db_get_by_download_token_def)
  next
    case (Some q)
    then have q: "q \<in> set db" "o_download_token q = Some d"
      using find_in_set[of "\<lambda>r. o_download_token r = Some d" db q] by simp_all
    from r have "store_inv db" by (rule reachable_store_inv)
    with q have "o_status q = 2" by (auto simp: store_inv_def list_all_iff row_ok_def)
    with q Some show ?thesis by (auto simp: download_def db_get_by_download_token_def)
  qed
qed

theorem download_authorized_witness:
  "reachable lib0 cfg0 [order1_paid] \<and>
   download cfg0 [order1_paid] uuid_a =
     Inr (FileResponse ''products/pack_ia_pymes_2026.zip'' ''application/zip'') \<and>
   download cfg0 [order1_paid] ''wrong'' = Inl (HTTPException 403 (''Link inv'' @ [CHR 0xE1] @ ''lido'')) \<and>
   download cfg0 [order1] uuid_a = Inl (HTTPException 403 (''Link inv'' @ [CHR 0xE1] @ ''lido''))"
  using download_authorized[OF reachable_order1_paid, where ?db0.0 = "[order1]" and d = uuid_a]
        download_authorized[OF reachable_order1_paid, where ?db0.0 = "[order1]" and d = "''wrong''"]
        reachable_order1_paid
  by (simp add: order1_def order1_paid_def cfg0_def uuid_a_def)

text \<open>
  C5: for a submitted string whose normal form (stripped, lower case) is a valid e-mail
  address, when the gateway answers the creation request with an object that holds a
  token \<open>t\<close> and a URL \<open>u\<close>, both strings, and the new order id is not in the table
  (it comes from \<open>uuid4\<close>), \<open>pay_create\<close> returns the checkout URL \<open>u?token=t\<close>
  and the table is the old one with exactly one more row: a Pending order (status 1)
  without download token, whose gateway token is \<open>t\<close>.
\<close>

theorem pay_create_success:
  assumes given: "map_of payload ''email'' = Some (JStr raw)"
    and valid: "is_valid_email (lower (strip raw))"
    and answer: "gw (flow_post_request lib cfg ''/payment/create''
                   (pay_create_params cfg commerce_order (lower (strip raw)))) = Body (JDict data)"
    and tok: "map_of data ''token'' = Some (JStr t)"
    and url: "map_of data ''url'' = Some (JStr u)"
    and fresh: "order_id \<notin> set (map o_id db)"
  shows "pay_create lib cfg gw db now payload order_id commerce_order =
     (db @ [\<lparr>o_id = order_id, o_created_at = now, o_email = lower (strip raw),
              o_commerce_order = commerce_order, o_flow_token = t, o_status = 1,
              o_download_token = None, o_paid_at = None\<rparr>],
      Inr (JSONResponse (JDict
        [(''ok'', JBool True), (''checkoutUrl'', JStr (u @ ''?token='' @ t)),
         (''token'', JStr t)])))"
  using valid answer tok url fresh
  by (simp add: pay_create_str[OF given] subscript_def db_create_order_def bind_text_def py_str_def)

theorem pay_create_success_witness:
  "map_of [(''email'', JStr ''buyer@x.com'')] ''email'' = Some (JStr ''buyer@x.com'') \<and>
   is_valid_email (lower (strip ''buyer@x.com'')) \<and>
   gw_paid (flow_post_request lib0 cfg0 ''/payment/create''
              (pay_create_params cfg0 ''co1'' (lower (strip ''buyer@x.com'')))) =
     Body (JDict [(''url'', JStr ''https://gw/pay''), (''token'', JStr ''T1''),
                  (''flowOrder'', JInt 7)]) \<and>
   map_of [(''url'', JStr ''https://gw/pay''), (''token'', JStr ''T1''), (''flowOrder'', JInt 7)]
     ''token'' = Some (JStr ''T1'') \<and>
   map_of [(''url'', JStr ''https://gw/pay''), (''token'', JStr ''T1''), (''flowOrder'', JInt 7)]
     ''url'' = Some (JStr ''https://gw/pay'') \<and>
   ''id1'' \<notin> set (map o_id []) \<and>
   pay_create lib0 cfg0 gw_paid [] ''2026-01-01T00:00:00'' [(''email'', JStr ''buyer@x.com'')]
       ''id1'' ''co1'' =
     ([order1],
      Inr (JSONResponse (JDict
        [(''ok'', JBool True), (''checkoutUrl'', JStr ''https://gw/pay?token=T1''),
         (''token'', JStr ''T1'')]))) \<and>
   o_status order1 = 1 \<and> o_flow_token order1 = ''T1''"
proof -
  have g: "map_of [(''email'', JStr ''buyer@x.com'')] ''email'' = Some (JStr ''buyer@x.com'')"
    by simp
  have n: "lower (strip ''buyer@x.com'') = ''buyer@x.com''" by code_simp
  have v: "is_valid_email (lower (strip ''buyer@x.com''))" by code_simp
  have a: "gw_paid (flow_post_request lib0 cfg0 ''/payment/create''
              (pay_create_params cfg0 ''co1'' (lower (strip ''buyer@x.com'')))) =
     Body (JDict [(''url'', JStr ''https://gw/pay''), (''token'', JStr ''T1''),
                  (''flowOrder'', JInt 7)])"
    by (simp add: gw_paid_def flow_post_request_def Let_def)
  have t: "map_of [(''url'', JStr ''https://gw/pay''), (''token'', JStr ''T1''), (''flowOrder'', JInt 7)]
     ''token'' = Some (JStr ''T1'')" by simp
  have u: "map_of [(''url'', JStr ''https://gw/pay''), (''token'', JStr ''T1''), (''flowOrder'', JInt 7)]
     ''url'' = Some (JStr ''https://gw/pay'')" by simp
  have f: "''id1'' \<notin> set (map o_id [])" by simp
  from pay_create_success[where gw = gw_paid and lib = lib0 and cfg = cfg0
         and commerce_order = "''co1''" and raw = "''buyer@x.com''"
         and payload = "[(''email'', JStr ''buyer@x.com'')]" and db = "[]"
         and now = "''2026-01-01T00:00:00''" and order_id = "''id1''", OF g v a t u f] g v a t u f
  show ?thesis by (simp add: n order1_def)
qed

text \<open>
  C6: when the submitted e-mail is a string without \<open>@\<close>, or without a dot after
  its \<open>@\<close>, or any string whose normal form the pattern rejects, and also when it
  is missing or empty, \<open>pay_create\<close> ends with HTTP 400 and the table is unchanged;
  the gateway is not asked.
\<close>

theorem invalid_email_rejected:
  assumes "(\<exists>raw. map_of payload ''email'' = Some (JStr raw) \<and>
              (CHR ''@'' \<notin> set raw \<or>
               CHR ''.'' \<notin> set (dropWhile (\<lambda>c. c \<noteq> CHR ''@'') raw) \<or>
               \<not> is_valid_email (lower (strip raw)))) \<or>
           map_of payload ''email'' = None \<or>
           (\<exists>v. map_of payload ''email'' = Some v \<and> \<not> py_bool v)"
  shows "pay_create lib cfg gw db now payload order_id commerce_order =
           (db, Inl (HTTPException 400 (''Email inv'' @ [CHR 0xE1] @ ''lido'')))"
  using assms
proof (elim disjE exE conjE)
  fix raw
  assume g: "map_of payload ''email'' = Some (JStr raw)"
  {
    assume "\<not> is_valid_email (lower (strip raw))"
    then show ?thesis by (simp add: pay_create_str[OF g])
  }
  note bad = this
  {
    assume "CHR ''@'' \<notin> set raw"
    then have "\<not> is_valid_email (lower (strip raw))"
      using valid_email_has_at_and_dot[of "lower (strip raw)"]
            normalised_has_at_and_dot[of raw] by blast
    then show ?thesis by (rule bad)
  }
  {
    assume "CHR ''.'' \<notin> set (dropWhile (\<lambda>c. c \<noteq> CHR ''@'') raw)"
    then have "\<not> is_valid_email (lower (strip raw))"
      using valid_email_has_at_and_dot[of "lower (strip raw)"]
            normalised_has_at_and_dot[of raw] by blast
    then show ?thesis by (rule bad)
  }
next
  assume "map_of payload ''email'' = None"
  then show ?thesis using pay_create_falsy by blast
next
  fix v assume "map_of payload ''email'' = Some v" "\<not> py_bool v"
  then show ?thesis using pay_create_falsy by blast
qed

theorem invalid_email_rejected_witness:
  "map_of [(''email'', JStr ''buyer.x.com'')] ''email'' = Some (JStr ''buyer.x.com'') \<and>
   CHR ''@'' \<notin> set ''buyer.x.com'' \<and>
   pay_create lib0 cfg0 gw_paid [order1] ''2026-01-05T00:00:00'' [(''email'', JStr ''buyer.x.com'')]
       ''id2'' ''co2'' =
     ([order1], Inl (HTTPException 400 (''Email inv'' @ [CHR 0xE1] @ ''lido''))) \<and>
   map_of [(''email'', JStr ''buyer@xcom'')] ''email'' = Some (JStr ''buyer@xcom'') \<and>
   CHR ''.'' \<notin> set (dropWhile (\<lambda>c. c \<noteq> CHR ''@'') ''buyer@xcom'') \<and>
   pay_create lib0 cfg0 gw_paid [order1] ''2026-01-05T00:00:00'' [(''email'', JStr ''buyer@xcom'')]
       ''id2'' ''co2'' =
     ([order1], Inl (HTTPException 400 (''Email inv'' @ [CHR 0xE1] @ ''lido'')))"
proof -
  have a: "CHR ''@'' \<notin> set ''buyer.x.com''" by simp
  have b: "CHR ''.'' \<notin> set (dropWhile (\<lambda>c. c \<noteq> CHR ''@'') ''buyer@xcom'')" by simp
  have h1: "(\<exists>raw. map_of [(''email'', JStr ''buyer.x.com'')] ''email'' = Some (JStr raw) \<and>
              (CHR ''@'' \<notin> set raw \<or>
               CHR ''.'' \<notin> set (dropWhile (\<lambda>c. c \<noteq> CHR ''@'') raw) \<or>
               \<not> is_valid_email (lower (strip raw)))) \<or>
           map_of [(''email'', JStr ''buyer.x.com'')] ''email'' = None \<or>
           (\<exists>v. map_of [(''email'', JStr ''buyer.x.com'')] ''email'' = Some v \<and> \<not> py_bool v)"
    using a by simp
  have h2: "(\<exists>raw. map_of [(''email'', JStr ''buyer@xcom'')] ''email'' = Some (JStr raw) \<and>
              (CHR ''@'' \<notin> set raw \<or>
               CHR ''.'' \<notin> set (dropWhile (\<lambda>c. c \<noteq> CHR ''@'') raw) \<or>
               \<not> is_valid_email (lower (strip raw)))) \<or>
           map_of [(''email'', JStr ''buyer@xcom'')] ''email'' = None \<or>
           (\<exists>v. map_of [(''email'', JStr ''buyer@xcom'')] ''email'' = Some v \<and> \<not> py_bool v)"
    using b by simp
  from invalid_email_rejected[OF h1] invalid_email_rejected[OF h2] a b
  show ?thesis by simp
qed

text \<open>
  C7: for a valid e-mail, when the gateway call raises, or answers with an object that
  lacks \<open>token\<close> or \<open>url\<close>, \<open>pay_create\<close> ends with that error (the error of the
  call, or the KeyError of the missing field) and the table is unchanged.
\<close>

theorem pay_create_gateway_failure:
  assumes given: "map_of payload ''email'' = Some (JStr raw)"
    and valid: "is_valid_email (lower (strip raw))"
    and fails:
      "gw (flow_post_request lib cfg ''/payment/create''
             (pay_create_params cfg commerce_order (lower (strip raw)))) = Raised \<or>
       (\<exists>data. gw (flow_post_request lib cfg ''/payment/create''
                     (pay_create_params cfg commerce_order (lower (strip raw)))) = Body (JDict data) \<and>
               (map_of data ''token'' = None \<or> map_of data ''url'' = None))"
  shows "\<exists>e. pay_create lib cfg gw db now payload order_id commerce_order = (db, Inl e) \<and>
             e \<in> {RequestError, KeyError ''token'', KeyError ''url''}"
  using fails
proof
  assume "gw (flow_post_request lib cfg ''/payment/create''
             (pay_create_params cfg commerce_order (lower (strip raw)))) = Raised"
  with valid show ?thesis by (simp add: pay_create_str[OF given])
next
  assume "\<exists>data. gw (flow_post_request lib cfg ''/payment/create''
                     (pay_create_params cfg commerce_order (lower (strip raw)))) = Body (JDict data) \<and>
               (map_of data ''token'' = None \<or> map_of data ''url'' = None)"
  then obtain data where a: "gw (flow_post_request lib cfg ''/payment/create''
                     (pay_create_params cfg commerce_order (lower (strip raw)))) = Body (JDict data)"
    and m: "map_of data ''token'' = None \<or> map_of data ''url'' = None" by blast
  from m show ?thesis
  proof
    assume "map_of data ''token'' = None"
    with valid a show ?thesis by (simp add: pay_create_str[OF given] subscript_def)
  next
    assume "map_of data ''url'' = None"
    with valid a show ?thesis
      by (simp add: pay_create_str[OF given] subscript_def split: option.splits)
  qed
qed

theorem pay_create_gateway_failure_witness:
  "map_of [(''email'', JStr ''buyer@x.com'')] ''email'' = Some (JStr ''buyer@x.com'') \<and>
   is_valid_email (lower (strip ''buyer@x.com'')) \<and>
   gw_down (flow_post_request lib0 cfg0 ''/payment/create''
              (pay_create_params cfg0 ''co2'' (lower (strip ''buyer@x.com'')))) = Raised \<and>
   pay_create lib0 cfg0 gw_down [order1] ''2026-01-05T00:00:00'' [(''email'', JStr ''buyer@x.com'')]
       ''id2'' ''co2'' = ([order1], Inl RequestError) \<and>
   gw_error_body (flow_post_request lib0 cfg0 ''/payment/create''
              (pay_create_params cfg0 ''co2'' (lower (strip ''buyer@x.com'')))) =
     Body (JDict [(''code'', JInt 401), (''message'', JStr ''apiKey not found'')]) \<and>
   map_of [(''code'', JInt 401), (''message'', JStr ''apiKey not found'')] ''token'' = None \<and>
   pay_create lib0 cfg0 gw_error_body [order1] ''2026-01-05T00:00:00''
       [(''email'', JStr ''buyer@x.com'')] ''id2'' ''co2'' = ([order1], Inl (KeyError ''token''))"
proof -
  have g: "map_of [(''email'', JStr ''buyer@x.com'')] ''email'' = Some (JStr ''buyer@x.com'')"
    by simp
  have v: "is_valid_email (lower (strip ''buyer@x.com''))" by code_simp
  have d: "gw_down (flow_post_request lib0 cfg0 ''/payment/create''
              (pay_create_params cfg0 ''co2'' (lower (strip ''buyer@x.com'')))) = Raised"
    by (simp add: gw_down_def)
  have b: "gw_error_body (flow_post_request lib0 cfg0 ''/payment/create''
              (pay_create_params cfg0 ''co2'' (lower (strip ''buyer@x.com'')))) =
     Body (JDict [(''code'', JInt 401), (''message'', JStr ''apiKey not found'')])"
    by (simp add: gw_error_body_def)
  have m: "map_of [(''code'', JInt 401), (''message'', JStr ''apiKey not found'')] ''token'' = None"
    by simp
  have r1: "pay_create lib0 cfg0 gw_down [order1] ''2026-01-05T00:00:00''
       [(''email'', JStr ''buyer@x.com'')] ''id2'' ''co2'' = ([order1], Inl RequestError)"
    by (simp add: pay_create_str[OF g] v d)
  have r2: "pay_create lib0 cfg0 gw_error_body [order1] ''2026-01-05T00:00:00''
       [(''email'', JStr ''buyer@x.com'')] ''id2'' ''co2'' = ([order1], Inl (KeyError ''token''))"
    by (simp add: pay_create_str[OF g] v b subscript_def)
  have h1: "gw_down (flow_post_request lib0 cfg0 ''/payment/create''
             (pay_create_params cfg0 ''co2'' (lower (strip ''buyer@x.com'')))) = Raised \<or>
       (\<exists>data. gw_down (flow_post_request lib0 cfg0 ''/payment/create''
                     (pay_create_params cfg0 ''co2'' (lower (strip ''buyer@x.com'')))) = Body (JDict data) \<and>
               (map_of data ''token'' = None \<or> map_of data ''url'' = None))"
    using d by simp
  from pay_create_gateway_failure[where gw = gw_down and lib = lib0 and cfg = cfg0
         and commerce_order = "''co2''" and raw = "''buyer@x.com''"
         and payload = "[(''email'', JStr ''buyer@x.com'')]" and db = "[order1]"
         and now = "''2026-01-05T00:00:00''" and order_id = "''id2''", OF g v h1]
  have "\<exists>e. pay_create lib0 cfg0 gw_down [order1] ''2026-01-05T00:00:00''
       [(''email'', JStr ''buyer@x.com'')] ''id2'' ''co2'' = ([order1], Inl e)" by blast
  with g v d b m r1 r2 show ?thesis by simp
qed

text \<open>
  C8, as claimed, fails in its last part: \<open>flow_post\<close> adds \<open>apiKey\<close> to the
  parameters before it signs them, so the API key is part of what is signed. For the
  parameter \<open>token = T1\<close>, key \<open>K\<close> and secret \<open>S\<close>, the message signed is
  \<open>apiKeyKtokenT1\<close>, not \<open>tokenT1\<close>, and the parameter \<open>s\<close> that is sent is the
  digest of the former.
\<close>

theorem api_key_is_signed_counterexample:
  "flow_post_request lib0 cfg0 ''/payment/create'' [(''token'', JStr ''T1'')] =
     Post ''https://www.flow.cl/api/payment/create''
       [(''token'', JStr ''T1''), (''apiKey'', JStr ''K''),
        (''s'', JStr ''hmac(S,apiKeyKtokenT1)'')] \<and>
   flow_sign_raw lib0 (AList.update ''apiKey'' (JStr ''K'') [(''token'', JStr ''T1'')]) =
     ''apiKeyKtokenT1'' \<and>
   flow_sign_raw lib0 [(''token'', JStr ''T1'')] = ''tokenT1'' \<and>
   flow_sign lib0 [(''token'', JStr ''T1'')] ''S'' = ''hmac(S,tokenT1)'' \<and>
   ''hmac(S,apiKeyKtokenT1)'' \<noteq> flow_sign lib0 [(''token'', JStr ''T1'')] ''S''"
  by (simp add: flow_post_request_def Let_def flow_sign_def flow_sign_raw_def lib0_def cfg0_def
        py_str_def)

text \<open>
  C8, amended: \<open>flow_post\<close> first sets the parameter \<open>apiKey\<close>, then signs: the
  signature is the HMAC-SHA256 digest, keyed by the secret, of the concatenation of
  key and value of all parameters, \<open>apiKey\<close> among them, in the order of their keys;
  only the signature is added after, as the parameter \<open>s\<close>. \<open>flow_get_status\<close>
  signs \<open>apiKey\<close> and \<open>token\<close> in the same way. For the parameters of
  \<open>pay_create\<close> the message signed starts with \<open>amount350apiKey\<close> and the key. The items are sorted by key and are
  those of the parameters, so two dicts with the same items, in whatever order they
  were filled, have the same signature.
\<close>

theorem request_signature:
  "flow_post_request lib cfg endpoint params =
     (let signed = AList.update ''apiKey'' (JStr (FLOW_API_KEY cfg)) params;
          raw = concat (map (\<lambda>(k, v). k @ py_str lib v) (sort_key fst signed))
      in Post (FLOW_API_URL cfg @ endpoint)
           (AList.update ''s''
              (JStr (hmac_sha256_hexdigest lib (FLOW_SECRET_KEY cfg) raw)) signed)) \<and>
   (''apiKey'', JStr (FLOW_API_KEY cfg)) \<in>
      set (sort_key fst (AList.update ''apiKey'' (JStr (FLOW_API_KEY cfg)) params)) \<and>
   flow_get_status_request lib cfg (Some t) =
     Get (FLOW_API_URL cfg @ ''/payment/getStatus'')
       [(''apiKey'', JStr (FLOW_API_KEY cfg)), (''token'', JStr t),
        (''s'', JStr (hmac_sha256_hexdigest lib (FLOW_SECRET_KEY cfg)
                  (''apiKey'' @ FLOW_API_KEY cfg @ ''token'' @ t)))] \<and>
   flow_sign_raw lib (AList.update ''apiKey'' (JStr (FLOW_API_KEY cfg))
       (pay_create_params cfg commerce_order e)) =
     ''amount350'' @ ''apiKey'' @ FLOW_API_KEY cfg @ ''commerceOrder'' @ commerce_order @
     ''currencyCLP'' @ ''email'' @ e @ ''subjectPack IA para PYMES 2026'' @
     ''urlConfirmation'' @ PUBLIC_BASE_URL cfg @ ''/flow/confirmation'' @
     ''urlReturn'' @ PUBLIC_BASE_URL cfg @ ''/flow/return'' \<and>
   sorted (map fst (sort_key fst ps)) \<and> set (sort_key fst ps) = set ps \<and>
   (distinct (map fst ps) \<and> distinct (map fst qs) \<and> set ps = set qs \<longrightarrow>
      flow_sign lib ps secret = flow_sign lib qs secret)"
proof (intro conjI impI)
  show "flow_sign_raw lib (AList.update ''apiKey'' (JStr (FLOW_API_KEY cfg))
       (pay_create_params cfg commerce_order e)) =
     ''amount350'' @ ''apiKey'' @ FLOW_API_KEY cfg @ ''commerceOrder'' @ commerce_order @
     ''currencyCLP'' @ ''email'' @ e @ ''subjectPack IA para PYMES 2026'' @
     ''urlConfirmation'' @ PUBLIC_BASE_URL cfg @ ''/flow/confirmation'' @
     ''urlReturn'' @ PUBLIC_BASE_URL cfg @ ''/flow/return''"
    by (rule pay_create_signed_message)
next
  show "flow_post_request lib cfg endpoint params =
     (let signed = AList.update ''apiKey'' (JStr (FLOW_API_KEY cfg)) params;
          raw = concat (map (\<lambda>(k, v). k @ py_str lib v) (sort_key fst signed))
      in Post (FLOW_API_URL cfg @ endpoint)
           (AList.update ''s''
              (JStr (hmac_sha256_hexdigest lib (FLOW_SECRET_KEY cfg) raw)) signed))"
    by (simp add: flow_post_request_def flow_sign_def flow_sign_raw_def Let_def)
next
  show "(''apiKey'', JStr (FLOW_API_KEY cfg)) \<in>
      set (sort_key fst (AList.update ''apiKey'' (JStr (FLOW_API_KEY cfg)) params))"
    by (simp add: update_member)
next
  show "flow_get_status_request lib cfg (Some t) =
     Get (FLOW_API_URL cfg @ ''/payment/getStatus'')
       [(''apiKey'', JStr (FLOW_API_KEY cfg)), (''token'', JStr t),
        (''s'', JStr (hmac_sha256_hexdigest lib (FLOW_SECRET_KEY cfg)
                  (''apiKey'' @ FLOW_API_KEY cfg @ ''token'' @ t)))]"
    by (simp add: flow_get_status_request_def flow_sign_def flow_sign_raw_def Let_def py_str_def)
next
  show "sorted (map fst (sort_key fst ps))" by (rule sorted_sort_key)
next
  show "set (sort_key fst ps) = set ps" by simp
next
  assume "distinct (map fst ps) \<and> distinct (map fst qs) \<and> set ps = set qs"
  then have "sort_key fst ps = sort_key fst qs" by (simp add: sort_key_fst_unique)
  then show "flow_sign lib ps secret = flow_sign lib qs secret"
    by (simp add: flow_sign_def flow_sign_raw_def)
qed

theorem request_signature_witness:
  "distinct (map fst [(''token'', JStr ''T1''), (''apiKey'', JStr ''K'')]) \<and>
   distinct (map fst [(''apiKey'', JStr ''K''), (''token'', JStr ''T1'')]) \<and>
   set [(''token'', JStr ''T1''), (''apiKey'', JStr ''K'')] =
     set [(''apiKey'', JStr ''K''), (''token'', JStr ''T1'')] \<and>
   flow_sign lib0 [(''token'', JStr ''T1''), (''apiKey'', JStr ''K'')] ''S'' =
     flow_sign lib0 [(''apiKey'', JStr ''K''), (''token'', JStr ''T1'')] ''S'' \<and>
   flow_sign lib0 [(''apiKey'', JStr ''K''), (''token'', JStr ''T1'')] ''S'' =
     ''hmac(S,apiKeyKtokenT1)'' \<and>
   flow_get_status_request lib0 cfg0 (Some ''T1'') =
     Get ''https://www.flow.cl/api/payment/getStatus''
       [(''apiKey'', JStr ''K''), (''token'', JStr ''T1''),
        (''s'', JStr ''hmac(S,apiKeyKtokenT1)'')]"
proof -
  have d1: "distinct (map fst [(''token'', JStr ''T1''), (''apiKey'', JStr ''K'')])" by simp
  have d2: "distinct (map fst [(''apiKey'', JStr ''K''), (''token'', JStr ''T1'')])" by simp
  have s: "set [(''token'', JStr ''T1''), (''apiKey'', JStr ''K'')] =
     set [(''apiKey'', JStr ''K''), (''token'', JStr ''T1'')]" by auto
  note t = request_signature[where lib = lib0 and cfg = cfg0 and t = "''T1''"
      and ps = "[(''token'', JStr ''T1''), (''apiKey'', JStr ''K'')]"
      and qs = "[(''apiKey'', JStr ''K''), (''token'', JStr ''T1'')]" and secret = "''S''"]
  from t d1 d2 s have e: "flow_sign lib0 [(''token'', JStr ''T1''), (''apiKey'', JStr ''K'')] ''S'' =
     flow_sign lib0 [(''apiKey'', JStr ''K''), (''token'', JStr ''T1'')] ''S''" by blast
  from t have g: "flow_get_status_request lib0 cfg0 (Some ''T1'') =
     Get (FLOW_API_URL cfg0 @ ''/payment/getStatus'')
       [(''apiKey'', JStr (FLOW_API_KEY cfg0)), (''token'', JStr ''T1''),
        (''s'', JStr (hmac_sha256_hexdigest lib0 (FLOW_SECRET_KEY cfg0)
                  (''apiKey'' @ FLOW_API_KEY cfg0 @ ''token'' @ ''T1'')))]" by blast
  have v: "flow_sign lib0 [(''apiKey'', JStr ''K''), (''token'', JStr ''T1'')] ''S'' =
     ''hmac(S,apiKeyKtokenT1)''"
    by (simp add: flow_sign_def flow_sign_raw_def lib0_def py_str_def)
  from d1 d2 s e g v show ?thesis by (simp add: lib0_def cfg0_def)
qed

text \<open>
  C9, as claimed, fails for a token that no order has when the status query fails:
  the table is unchanged, but the caller gets the error, not success.
\<close>

theorem confirm_unknown_token_counterexample:
  "db_get_by_flow_token [order1] (Some ''T9'') = None \<and>
   flow_confirmation lib0 cfg0 gw_down [order1] ''2026-01-02T00:00:00'' (Some ''T9'') uuid_a =
     ([order1], [], Inl RequestError)"
  by (simp add: flow_confirmation_by_status reported_status_cases gw_down_def
        db_get_by_flow_token_def order1_def)

text \<open>
  C9, amended: if the gateway reports a status other than 2, or no order of the table
  has the token, then confirm leaves the table as it is and queues no e-mail; it
  answers \<open>{ok: true}\<close> when the gateway reported a status (as it did in the first
  case), and ends with the error of the status query otherwise.
\<close>

theorem confirm_noop:
  assumes "(\<exists>n. reported_status lib cfg gw token = Inr n \<and> n \<noteq> 2) \<or>
           (\<forall>r\<in>set db. Some (o_flow_token r) \<noteq> token)"
  shows "fst (flow_confirmation lib cfg gw db now token hex) = db \<and>
         fst (snd (flow_confirmation lib cfg gw db now token hex)) = [] \<and>
         (case reported_status lib cfg gw token of
            Inr n \<Rightarrow> snd (snd (flow_confirmation lib cfg gw db now token hex)) =
                       Inr (JSONResponse (JDict [(''ok'', JBool True)]))
          | Inl e \<Rightarrow> snd (snd (flow_confirmation lib cfg gw db now token hex)) = Inl e)"
  using assms
proof
  assume "\<exists>n. reported_status lib cfg gw token = Inr n \<and> n \<noteq> 2"
  then show ?thesis by (auto simp: flow_confirmation_by_status)
next
  assume "\<forall>r\<in>set db. Some (o_flow_token r) \<noteq> token"
  then have "db_get_by_flow_token db token = None" by (simp add: get_by_flow_token_None)
  then show ?thesis by (simp add: flow_confirmation_by_status split: sum.splits)
qed

theorem confirm_noop_witness:
  "reported_status lib0 cfg0 gw_pending (Some ''T1'') = Inr 1 \<and> (1::int) \<noteq> 2 \<and>
   flow_confirmation lib0 cfg0 gw_pending [order1] ''2026-01-02T00:00:00'' (Some ''T1'') uuid_a =
     ([order1], [], Inr (JSONResponse (JDict [(''ok'', JBool True)]))) \<and>
   db_get_by_flow_token [order1] (Some ''T9'') = None \<and>
   reported_status lib0 cfg0 gw_paid (Some ''T9'') = Inr 2 \<and>
   flow_confirmation lib0 cfg0 gw_paid [order1] ''2026-01-02T00:00:00'' (Some ''T9'') uuid_a =
     ([order1], [], Inr (JSONResponse (JDict [(''ok'', JBool True)])))"
proof -
  have s1: "reported_status lib0 cfg0 gw_pending (Some ''T1'') = Inr 1"
    by (simp add: reported_status_cases gw_pending_def py_int_def)
  have s2: "reported_status lib0 cfg0 gw_paid (Some ''T9'') = Inr 2"
    by (simp add: reported_status_cases gw_paid_def flow_get_status_request_def Let_def py_int_def)
  have none: "db_get_by_flow_token [order1] (Some ''T9'') = None"
    by (simp add: db_get_by_flow_token_def order1_def)
  have h1: "(\<exists>n. reported_status lib0 cfg0 gw_pending (Some ''T1'') = Inr n \<and> n \<noteq> 2) \<or>
           (\<forall>r\<in>set [order1]. Some (o_flow_token r) \<noteq> Some ''T1'')"
    using s1 by simp
  have h2: "(\<exists>n. reported_status lib0 cfg0 gw_paid (Some ''T9'') = Inr n \<and> n \<noteq> 2) \<or>
           (\<forall>r\<in>set [order1]. Some (o_flow_token r) \<noteq> Some ''T9'')"
    by (simp add: order1_def)
  from confirm_noop[OF h1, of "''2026-01-02T00:00:00''" uuid_a]
  have a: "flow_confirmation lib0 cfg0 gw_pending [order1] ''2026-01-02T00:00:00'' (Some ''T1'') uuid_a =
     ([order1], [], Inr (JSONResponse (JDict [(''ok'', JBool True)])))"
    by (simp add: s1 prod_eq_iff)
  from confirm_noop[OF h2, of "''2026-01-02T00:00:00''" uuid_a]
  have b: "flow_confirmation lib0 cfg0 gw_paid [order1] ''2026-01-02T00:00:00'' (Some ''T9'') uuid_a =
     ([order1], [], Inr (JSONResponse (JDict [(''ok'', JBool True)])))"
    by (simp add: s2 prod_eq_iff)
  from s1 s2 none a b show ?thesis by simp
qed

text \<open>
  C10: for every request body, when \<open>pay_create\<close> answers with success the body held
  a string under \<open>email\<close>, the table has exactly one more row, and the e-mail of that
  row is the string stripped of surrounding whitespace and put in lower case; that
  form is valid and is a fixed point of \<open>strip\<close> and of \<open>lower\<close>. For a string
  under \<open>email\<close>, the answer is HTTP 400 exactly when that normal form is rejected by
  \<open>is_valid_email\<close>, the gateway is asked about one request only, and that request
  carries the normal form as its \<open>email\<close> parameter.
\<close>

theorem pay_create_normalises_email:
  "(\<forall>resp. snd (pay_create lib cfg gw db now payload order_id commerce_order) = Inr resp \<longrightarrow>
      (\<exists>raw r. map_of payload ''email'' = Some (JStr raw) \<and>
         is_valid_email (lower (strip raw)) \<and>
         fst (pay_create lib cfg gw db now payload order_id commerce_order) = db @ [r] \<and>
         o_email r = lower (strip raw) \<and>
         lower (o_email r) = o_email r \<and> strip (o_email r) = o_email r)) \<and>
   (\<forall>raw. map_of payload ''email'' = Some (JStr raw) \<longrightarrow>
      ((snd (pay_create lib cfg gw db now payload order_id commerce_order) =
          Inl (HTTPException 400 (''Email inv'' @ [CHR 0xE1] @ ''lido'')))
         = (\<not> is_valid_email (lower (strip raw)))) \<and>
      pay_create lib cfg gw db now payload order_id commerce_order =
        pay_create lib cfg
          (\<lambda>req. gw (flow_post_request lib cfg ''/payment/create''
                       (pay_create_params cfg commerce_order (lower (strip raw)))))
          db now payload order_id commerce_order \<and>
      (case flow_post_request lib cfg ''/payment/create''
              (pay_create_params cfg commerce_order (lower (strip raw))) of
         Post u ps \<Rightarrow> map_of ps ''email''
       | Get u ps \<Rightarrow> None) = Some (JStr (lower (strip raw))))"
proof (intro conjI allI impI)
  fix resp
  assume ok: "snd (pay_create lib cfg gw db now payload order_id commerce_order) = Inr resp"
  then obtain raw where given: "map_of payload ''email'' = Some (JStr raw)"
    using pay_create_accepts_strings by blast
  from ok have valid: "is_valid_email (lower (strip raw))"
    by (auto simp: pay_create_str[OF given] split: if_splits)
  from ok obtain r where r: "fst (pay_create lib cfg gw db now payload order_id commerce_order) = db @ [r]"
      "o_email r = lower (strip raw)"
    by (auto simp: pay_create_str[OF given] split: reply.splits sum.splits if_splits
             dest: db_create_order_row)
  from r(2) have "lower (o_email r) = o_email r" "strip (o_email r) = o_email r"
    by (simp_all add: lower_idem strip_lower_strip)
  with given valid r
  show "\<exists>raw r. map_of payload ''email'' = Some (JStr raw) \<and>
         is_valid_email (lower (strip raw)) \<and>
         fst (pay_create lib cfg gw db now payload order_id commerce_order) = db @ [r] \<and>
         o_email r = lower (strip raw) \<and>
         lower (o_email r) = o_email r \<and> strip (o_email r) = o_email r"
    by blast
next
  fix raw
  assume given: "map_of payload ''email'' = Some (JStr raw)"
  show "(snd (pay_create lib cfg gw db now payload order_id commerce_order) =
        Inl (HTTPException 400 (''Email inv'' @ [CHR 0xE1] @ ''lido'')))
       = (\<not> is_valid_email (lower (strip raw)))"
    by (auto simp: pay_create_str[OF given] split: reply.splits sum.splits
             dest: subscript_error db_create_order_error)
next
  fix raw
  assume given: "map_of payload ''email'' = Some (JStr raw)"
  show "pay_create lib cfg gw db now payload order_id commerce_order =
       pay_create lib cfg
         (\<lambda>req. gw (flow_post_request lib cfg ''/payment/create''
                      (pay_create_params cfg commerce_order (lower (strip raw)))))
         db now payload order_id commerce_order"
    using pay_create_gateway_once[of lib cfg gw db now payload order_id commerce_order]
    by (simp add: given)
next
  fix raw
  show "(case flow_post_request lib cfg ''/payment/create''
             (pay_create_params cfg commerce_order (lower (strip raw))) of
        Post u ps \<Rightarrow> map_of ps ''email''
      | Get u ps \<Rightarrow> None) = Some (JStr (lower (strip raw)))"
    by (rule request_email)
qed

theorem pay_create_normalises_email_witness:
  "map_of [(''email'', JStr '' Buyer@X.com '')] ''email'' = Some (JStr '' Buyer@X.com '') \<and>
   lower (strip '' Buyer@X.com '') = ''buyer@x.com'' \<and>
   is_valid_email ''buyer@x.com'' \<and>
   pay_create lib0 cfg0 gw_paid [] ''2026-01-01T00:00:00'' [(''email'', JStr '' Buyer@X.com '')]
       ''id1'' ''co1'' =
     ([order1],
      Inr (JSONResponse (JDict
        [(''ok'', JBool True), (''checkoutUrl'', JStr ''https://gw/pay?token=T1''),
         (''token'', JStr ''T1'')]))) \<and>
   o_email order1 = ''buyer@x.com'' \<and>
   (case flow_post_request lib0 cfg0 ''/payment/create''
           (pay_create_params cfg0 ''co1'' ''buyer@x.com'') of
      Post u ps \<Rightarrow> map_of ps ''email''
    | Get u ps \<Rightarrow> None) = Some (JStr ''buyer@x.com'')"
proof -
  have g: "map_of [(''email'', JStr '' Buyer@X.com '')] ''email'' = Some (JStr '' Buyer@X.com '')"
    by simp
  have v: "is_valid_email ''buyer@x.com''" by code_simp
  note t = pay_create_normalises_email[where lib = lib0 and cfg = cfg0 and gw = gw_paid
     and db = "[]" and now = "''2026-01-01T00:00:00''" and order_id = "''id1''"
     and commerce_order = "''co1''" and payload = "[(''email'', JStr '' Buyer@X.com '')]"]
  from t g have r: "(case flow_post_request lib0 cfg0 ''/payment/create''
           (pay_create_params cfg0 ''co1'' (lower (strip '' Buyer@X.com ''))) of
      Post u ps \<Rightarrow> map_of ps ''email''
    | Get u ps \<Rightarrow> None) = Some (JStr (lower (strip '' Buyer@X.com '')))" by blast
  from g v r show ?thesis
    by (simp add: norm_example pay_create_example order1_def)
qed

end
